theory Spec2Isabelle
  imports Main
begin

section \<open>Errors thrown by the TypeScript code\<close>

text \<open>
  A thrown JavaScript value. The constructors are the classes that the code tests with
  \<open>instanceof\<close>: \<open>AppError\<close> (status code and message, from \<open>createError\<close>),
  \<open>ZodError\<close> and \<open>SyntaxError\<close> and \<open>TypeError\<close> (each with its message), any other
  \<open>Error\<close> (with its message), and \<open>Thrown\<close> for a thrown value that is not an
  \<open>Error\<close> at all.
\<close>

datatype js_error =
    AppError nat string
  | ZodError string
  | SyntaxError string
  | TypeError string
  | Error string
  | Thrown string

text \<open>\<open>error instanceof Error ? error.message : 'Unknown error'\<close>\<close>

fun error_message :: "js_error \<Rightarrow> string" where
  "error_message (AppError c m) = m"
| "error_message (ZodError m) = m"
| "error_message (SyntaxError m) = m"
| "error_message (TypeError m) = m"
| "error_message (Error m) = m"
| "error_message (Thrown v) = ''Unknown error''"

text \<open>How an awaited promise settled.\<close>

datatype outcome = Resolved | Rejected js_error

fun outcome_of :: "js_error + 'a \<Rightarrow> outcome" where
  "outcome_of (Inl e) = Rejected e"
| "outcome_of (Inr v) = Resolved"

section \<open>Saga orchestrator\<close>

text \<open>
  A step is a pair of closures without arguments. What they do depends on, and changes,
  the systems they talk to, so each is a function of the state \<open>'w\<close> of those systems
  that returns how its promise settled and the new state.
\<close>

record ('a, 'w) SagaStep =
  execute :: "'w \<Rightarrow> (js_error + 'a) \<times> 'w"
  compensate :: "'w \<Rightarrow> (js_error + unit) \<times> 'w"

text \<open>The three private fields of class \<open>Saga\<close>.\<close>

record ('a, 'w) Saga =
  steps :: "('a, 'w) SagaStep list"
  results :: "'a list"
  completedSteps :: nat

text \<open>The calls the orchestrator makes to the closures of step \<open>i\<close>, in order, each with
  the way it settled.\<close>

datatype saga_event = Execute nat outcome | Compensate nat outcome

definition new_Saga :: "('a, 'w) Saga" where
  "new_Saga = \<lparr>steps = [], results = [], completedSteps = 0\<rparr>"

definition addStep :: "('a, 'w) Saga \<Rightarrow> ('a, 'w) SagaStep \<Rightarrow> ('a, 'w) Saga" where
  "addStep s step = s\<lparr>steps := steps s @ [step]\<rparr>"

text \<open>\<open>new Saga().addStep(s0).addStep(s1)...\<close>\<close>

definition build :: "('a, 'w) SagaStep list \<Rightarrow> ('a, 'w) Saga" where
  "build sts = foldl addStep new_Saga sts"

text \<open>
  The loop of \<open>compensate\<close>: \<open>for (let i = completedSteps - 1; i >= 0; i--)\<close>. The
  argument \<open>c\<close> is \<open>i + 1\<close>, so that the loop ends at \<open>c = 0\<close>. A rejected
  \<open>compensate\<close> is caught and logged. When \<open>i\<close> is not an index of \<open>steps\<close>,
  \<open>this.steps[i]\<close> is \<open>undefined\<close>, the call throws a \<open>TypeError\<close> before any closure
  runs, and the same \<open>catch\<close> swallows it.
\<close>

fun compensate_loop :: "('a, 'w) SagaStep list \<Rightarrow> nat \<Rightarrow> 'w \<Rightarrow> 'w \<times> saga_event list" where
  "compensate_loop sts 0 w = (w, [])"
| "compensate_loop sts (Suc i) w =
     (if i < length sts
      then (case compensate (sts ! i) w of
              (r, w') \<Rightarrow>
                (case compensate_loop sts i w' of
                   (w'', tr) \<Rightarrow> (w'', Compensate i (outcome_of r) # tr)))
      else compensate_loop sts i w)"

definition Saga_compensate :: "('a, 'w) Saga \<Rightarrow> 'w \<Rightarrow> 'w \<times> saga_event list" where
  "Saga_compensate s w = compensate_loop (steps s) (completedSteps s) w"

text \<open>
  The loop of \<open>execute\<close>, from index \<open>i\<close>: \<open>Inl e\<close> when the step at some index
  rejected with \<open>e\<close> (control then passes to the \<open>catch\<close>), \<open>Inr ()\<close> when the loop ran
  to the end. The saga is returned with \<open>results\<close> and \<open>completedSteps\<close> as the loop
  left them.
\<close>

function execute_loop ::
  "('a, 'w) Saga \<Rightarrow> nat \<Rightarrow> 'w \<Rightarrow> (js_error + unit) \<times> ('a, 'w) Saga \<times> 'w \<times> saga_event list" where
  "execute_loop s i w =
     (if i < length (steps s)
      then (case execute (steps s ! i) w of
              (Inl e, w') \<Rightarrow> (Inl e, s, w', [Execute i (Rejected e)])
            | (Inr r, w') \<Rightarrow>
                (case execute_loop
                        (s\<lparr>results := results s @ [r], completedSteps := completedSteps s + 1\<rparr>)
                        (i + 1) w' of
                   (res, s', w'', tr) \<Rightarrow> (res, s', w'', Execute i Resolved # tr)))
      else (Inr (), s, w, []))"
  by pat_completeness auto
termination
  by (relation "measure (\<lambda>(s, i, w). length (steps s) - i)") auto

declare execute_loop.simps [simp del]

text \<open>
  \<open>Saga.execute\<close>: the promise resolves with \<open>this.results\<close>, or the completed steps
  are compensated and the caught error is thrown again.
\<close>

definition Saga_execute ::
  "('a, 'w) Saga \<Rightarrow> 'w \<Rightarrow> (js_error + 'a list) \<times> ('a, 'w) Saga \<times> 'w \<times> saga_event list" where
  "Saga_execute s w =
     (case execute_loop s 0 w of
        (Inr u, s', w', tr) \<Rightarrow> (Inr (results s'), s', w', tr)
      | (Inl e, s', w', tr) \<Rightarrow>
          (case Saga_compensate s' w' of
             (w'', tr') \<Rightarrow> (Inl e, s', w'', tr @ tr')))"

text \<open>
  \<open>fails_at sts w k e\<close>: when the \<open>execute\<close> closures of \<open>sts\<close> are called in order
  from the state \<open>w\<close>, those of the steps \<open>0..k-1\<close> resolve and that of step \<open>k\<close>
  rejects with \<open>e\<close>.
\<close>

fun fails_at :: "('a, 'w) SagaStep list \<Rightarrow> 'w \<Rightarrow> nat \<Rightarrow> js_error \<Rightarrow> bool" where
  "fails_at [] w k e = False"
| "fails_at (st # sts) w k e =
     (case execute st w of
        (Inl e', w') \<Rightarrow> k = 0 \<and> e' = e
      | (Inr r, w') \<Rightarrow> (case k of 0 \<Rightarrow> False | Suc k' \<Rightarrow> fails_at sts w' k' e))"


text \<open>
  What the loops are compared with. \<open>world_after sts w n\<close> is the state of the outside
  world once the \<open>execute\<close> closures of the first \<open>n\<close> steps have been called in order
  from \<open>w\<close>, however they settled. \<open>apply_compensations sts js w\<close> is the state once the
  \<open>compensate\<close> closures of the steps with the indices \<open>js\<close> have been called, one
  after the other in the order of \<open>js\<close>, from \<open>w\<close>, however they settled; and
  \<open>compensation_events sts js w\<close> lists these calls, each with the way it settled.
\<close>

fun world_after :: "('a, 'w) SagaStep list \<Rightarrow> 'w \<Rightarrow> nat \<Rightarrow> 'w" where
  "world_after sts w 0 = w"
| "world_after [] w (Suc n) = w"
| "world_after (st # sts) w (Suc n) = world_after sts (snd (execute st w)) n"

fun apply_compensations :: "('a, 'w) SagaStep list \<Rightarrow> nat list \<Rightarrow> 'w \<Rightarrow> 'w" where
  "apply_compensations sts [] w = w"
| "apply_compensations sts (j # js) w =
     apply_compensations sts js (snd (compensate (sts ! j) w))"

fun compensation_events :: "('a, 'w) SagaStep list \<Rightarrow> nat list \<Rightarrow> 'w \<Rightarrow> saga_event list" where
  "compensation_events sts [] w = []"
| "compensation_events sts (j # js) w =
     Compensate j (outcome_of (fst (compensate (sts ! j) w))) #
     compensation_events sts js (snd (compensate (sts ! j) w))"

subsection \<open>Example sagas\<close>

text \<open>Steps over a counter as the state of the outside world: one that always resolves
  and one that resolves only for the first call (a registration that cannot be
  repeated).\<close>

definition step_ok :: "string \<Rightarrow> (string, nat) SagaStep" where
  "step_ok v = \<lparr>execute = (\<lambda>w. (Inr v, w)), compensate = (\<lambda>w. (Inr (), w))\<rparr>"

definition step_once :: "string \<Rightarrow> (string, nat) SagaStep" where
  "step_once v =
     \<lparr>execute = (\<lambda>w. (if w = 0 then Inr v else Inl (Error ''already registered''), Suc w)),
      compensate = (\<lambda>w. (Inr (), w))\<rparr>"

definition saga_once :: "(string, nat) SagaStep list" where
  "saga_once = [step_once ''user'']"

definition saga_two_ok :: "(string, nat) SagaStep list" where
  "saga_two_ok = [step_ok ''user'', step_ok ''key'']"

text \<open>
  Steps over a journal as the state of the outside world: every closure writes what it
  did for the resource it names. \<open>journal_step\<close> creates the resource and its rollback
  removes it; the rollback of \<open>journal_step_bad_rollback\<close> rejects; the \<open>execute\<close> of
  \<open>journal_step_throws\<close> rejects; \<open>journal_step_once\<close> creates the resource only if
  the journal does not show it yet.
\<close>

definition journal_step :: "string \<Rightarrow> (string, string list) SagaStep" where
  "journal_step name =
     \<lparr>execute = (\<lambda>w. (Inr name, w @ [''create '' @ name])),
      compensate = (\<lambda>w. (Inr (), w @ [''remove '' @ name]))\<rparr>"

definition journal_step_bad_rollback :: "string \<Rightarrow> js_error \<Rightarrow> (string, string list) SagaStep" where
  "journal_step_bad_rollback name ce =
     \<lparr>execute = (\<lambda>w. (Inr name, w @ [''create '' @ name])),
      compensate = (\<lambda>w. (Inl ce, w @ [''cannot remove '' @ name]))\<rparr>"

definition journal_step_throws :: "string \<Rightarrow> js_error \<Rightarrow> (string, string list) SagaStep" where
  "journal_step_throws name e =
     \<lparr>execute = (\<lambda>w. (Inl e, w @ [''cannot create '' @ name])),
      compensate = (\<lambda>w. (Inr (), w @ [''remove '' @ name]))\<rparr>"

definition journal_step_once :: "string \<Rightarrow> (string, string list) SagaStep" where
  "journal_step_once name =
     \<lparr>execute = (\<lambda>w. if ''create '' @ name \<in> set w
                     then (Inl (Error ''already registered''), w @ [''cannot create '' @ name])
                     else (Inr name, w @ [''create '' @ name])),
      compensate = (\<lambda>w. (Inr (), w @ [''remove '' @ name]))\<rparr>"

definition journal_three_steps :: "(string, string list) SagaStep list" where
  "journal_three_steps =
     [journal_step ''user'', journal_step ''key'', journal_step_throws ''row'' (Error ''db down'')]"

definition journal_bad_rollback :: "(string, string list) SagaStep list" where
  "journal_bad_rollback =
     [journal_step ''user'', journal_step_bad_rollback ''key'' (Error ''kms down''),
      journal_step_throws ''row'' (Error ''db down'')]"

definition journal_once :: "(string, string list) SagaStep list" where
  "journal_once = [journal_step_once ''user'']"

section \<open>Retry policy\<close>

text \<open>
  \<open>RetryConfig\<close>. \<open>retries\<close> is a JavaScript number, here an integer (the callers pass
  \<open>3\<close>); \<open>delay\<close> is in milliseconds. \<open>onRetry\<close> returns nothing, so all it can
  do is act on the outside world.
\<close>

record 'w RetryConfig =
  retries :: int
  delay :: nat
  onRetry :: "js_error \<Rightarrow> 'w \<Rightarrow> 'w"

text \<open>What the wrapper does, in order: a call of the wrapped function, or a
  \<open>setTimeout\<close> of the given length that it awaits.\<close>

datatype retry_event = Call | Sleep nat

text \<open>\<open>error instanceof ZodError || error instanceof SyntaxError\<close>\<close>

fun is_retryable :: "js_error \<Rightarrow> bool" where
  "is_retryable (ZodError m) = True"
| "is_retryable (SyntaxError m) = True"
| "is_retryable e = False"

text \<open>
  The \<open>for\<close> loop of \<open>withRetry\<close>, entered with the loop variable \<open>attempt\<close>. The
  wrapped function \<open>fn\<close> (with its arguments applied) acts on the outside world \<open>'w\<close>
  and settles. After the loop only \<open>throw new Error(...)\<close> is left.
\<close>

function retry_loop ::
  "('w \<Rightarrow> (js_error + 'a) \<times> 'w) \<Rightarrow> 'w RetryConfig \<Rightarrow> int \<Rightarrow> 'w \<Rightarrow>
   (js_error + 'a) \<times> 'w \<times> retry_event list" where
  "retry_loop fn config attempt w =
     (if attempt \<le> retries config
      then (case fn w of
              (Inr v, w') \<Rightarrow> (Inr v, w', [Call])
            | (Inl e, w') \<Rightarrow>
                (if is_retryable e
                 then (if attempt < retries config
                       then (case retry_loop fn config (attempt + 1) w' of
                               (r, w'', tr) \<Rightarrow> (r, w'', Call # Sleep (delay config) # tr))
                       else (Inl e, w', [Call]))
                 else (Inl e, w', [Call])))
      else (Inl (Error ''Max retries reached. Unable to generate valid output.''), w, []))"
  by pat_completeness auto
termination
  by (relation "measure (\<lambda>(fn, config, attempt, w). nat (retries config + 1 - attempt))") auto

declare retry_loop.simps [simp del]

definition withRetry ::
  "('w \<Rightarrow> (js_error + 'a) \<times> 'w) \<Rightarrow> 'w RetryConfig \<Rightarrow> 'w \<Rightarrow>
   (js_error + 'a) \<times> 'w \<times> retry_event list" where
  "withRetry fn config w = retry_loop fn config 1 w"

text \<open>
  \<open>settles_after fn w m\<close>: when \<open>fn\<close> is called again and again from the state
  \<open>w\<close>, the first \<open>m\<close> calls reject with a retryable error; the value is then how call
  \<open>m + 1\<close> settles and the state it leaves. \<open>None\<close> when one of the first \<open>m\<close> calls
  resolves or rejects with another error.
\<close>

fun settles_after ::
  "('w \<Rightarrow> (js_error + 'a) \<times> 'w) \<Rightarrow> 'w \<Rightarrow> nat \<Rightarrow> ((js_error + 'a) \<times> 'w) option" where
  "settles_after fn w 0 = Some (fn w)"
| "settles_after fn w (Suc m) =
     (case fn w of
        (Inl e, w') \<Rightarrow> (if is_retryable e then settles_after fn w' m else None)
      | (Inr v, w') \<Rightarrow> None)"

fun retryable_rejection :: "js_error + 'a \<Rightarrow> bool" where
  "retryable_rejection (Inl e) = is_retryable e"
| "retryable_rejection (Inr v) = False"

subsection \<open>Example wrapped function\<close>

text \<open>The outside world is a pair of counters: the calls of the wrapped function and the
  calls of the \<open>onRetry\<close> callback. The function rejects with a \<open>SyntaxError\<close> the
  first time and resolves afterwards; the callback counts its calls.\<close>

definition flaky_fn :: "nat \<times> nat \<Rightarrow> (js_error + string) \<times> (nat \<times> nat)" where
  "flaky_fn w =
     (if fst w = 0 then Inl (SyntaxError ''Unexpected end of JSON input'') else Inr ''content'',
      (Suc (fst w), snd w))"

definition counting_onRetry :: "js_error \<Rightarrow> nat \<times> nat \<Rightarrow> nat \<times> nat" where
  "counting_onRetry e w = (fst w, Suc (snd w))"

definition research_retry_config :: "(nat \<times> nat) RetryConfig" where
  "research_retry_config = \<lparr>retries = 3, delay = 1000, onRetry = counting_onRetry\<rparr>"

text \<open>A function that never yields valid output: two schema violations, then malformed
  JSON each time.\<close>

definition invalid_fn :: "nat \<times> nat \<Rightarrow> (js_error + string) \<times> (nat \<times> nat)" where
  "invalid_fn w =
     (if fst w < 2 then Inl (ZodError ''Required'')
      else Inl (SyntaxError ''Unexpected token < in JSON''),
      (Suc (fst w), snd w))"

section \<open>Values, responses and error classification\<close>

text \<open>A value produced by \<open>JSON.parse\<close>. An object keeps its members in the order of
  the text; when a key is repeated the last member counts.\<close>

datatype json =
    JNull
  | JBool bool
  | JNum int
  | JStr string
  | JArr "json list"
  | JObj "(string \<times> json) list"

definition own_property :: "(string \<times> json) list \<Rightarrow> string \<Rightarrow> json option" where
  "own_property kvs k = map_of (rev kvs) k"

text \<open>
  The result of reading a property: \<open>undefined\<close>, a value of the parsed text, or something
  the JavaScript runtime supplies that is not part of the parsed text (a member of the
  prototype chain such as \<open>toString\<close>, the \<open>length\<close> of an array or string).
\<close>

datatype js_value = Undefined | Value json | Builtin

text \<open>
  What the code takes from the platform: \<open>JSON.parse\<close> (it throws a \<open>SyntaxError\<close> on
  malformed text), which properties the runtime supplies for a value, and the identity
  provider's \<open>decodeToken\<close>, which resolves with the claims of a token or rejects.
\<close>

record platform =
  JSON_parse :: "string \<Rightarrow> js_error + json"
  has_builtin :: "json \<Rightarrow> string \<Rightarrow> bool"
  decodeToken :: "string \<Rightarrow> js_error + json"

text \<open>\<open>parsedBody[field]\<close>: reading a property of \<open>null\<close> throws a \<open>TypeError\<close>.\<close>

fun js_get :: "platform \<Rightarrow> json \<Rightarrow> string \<Rightarrow> js_error + js_value" where
  "js_get pf JNull f = Inl (TypeError ''Cannot read properties of null'')"
| "js_get pf (JObj kvs) f =
     (case own_property kvs f of
        Some v \<Rightarrow> Inr (Value v)
      | None \<Rightarrow> Inr (if has_builtin pf (JObj kvs) f then Builtin else Undefined))"
| "js_get pf v f = Inr (if has_builtin pf v f then Builtin else Undefined)"

text \<open>\<open>String.prototype.split\<close> with a separator of one character: a string with
  \<open>n\<close> separators has \<open>n + 1\<close> parts, and the empty string has the one part \<open>''\<close>.\<close>

fun js_split :: "char \<Rightarrow> string \<Rightarrow> string list" where
  "js_split c [] = [[]]"
| "js_split c (x # xs) =
     (if x = c then [] # js_split c xs
      else (case js_split c xs of
              p # ps \<Rightarrow> (x # p) # ps
            | [] \<Rightarrow> [[x]]))"

text \<open>\<open>String.prototype.includes\<close>\<close>

fun js_includes :: "string \<Rightarrow> string \<Rightarrow> bool" where
  "js_includes [] sub = (sub = [])"
| "js_includes (x # xs) sub = (take (length sub) (x # xs) = sub \<or> js_includes xs sub)"

text \<open>\<open>HttpResponse\<close>; the fields \<open>headers\<close> and \<open>body\<close> carry the prefix \<open>response_\<close>
  to keep them apart from those of the request.\<close>

record HttpResponse =
  statusCode :: nat
  response_headers :: "(string \<times> string) list"
  response_body :: string
  isBase64Encoded :: bool

definition BAD_REQUEST :: nat where "BAD_REQUEST = 400"
definition UNAUTHORIZED :: nat where "UNAUTHORIZED = 401"
definition INTERNAL_SERVER_ERROR :: nat where "INTERNAL_SERVER_ERROR = 500"

text \<open>\<open>JSON.stringify({ message: m })\<close> for a message without characters that JSON
  escapes (the messages of \<open>handleError\<close> are such constants).\<close>

definition quoted :: "string \<Rightarrow> string" where
  "quoted m = [CHR 0x22] @ m @ [CHR 0x22]"

definition stringify_message :: "string \<Rightarrow> string" where
  "stringify_message m = ''{'' @ quoted ''message'' @ '':'' @ quoted m @ ''}''"

text \<open>\<open>createHttpResponse(statusCode, { body: { message } })\<close>, without extra headers.\<close>

definition createHttpResponse :: "nat \<Rightarrow> string \<Rightarrow> HttpResponse" where
  "createHttpResponse code m =
     \<lparr>statusCode = code,
      response_headers = [(''Content-Type'', ''application/json'')],
      response_body = stringify_message m,
      isBase64Encoded = False\<rparr>"

text \<open>\<open>createError(statusCode, message)\<close>\<close>

definition createError :: "nat \<Rightarrow> string \<Rightarrow> js_error" where
  "createError code m = AppError code m"

fun handleError :: "js_error \<Rightarrow> HttpResponse" where
  "handleError (AppError code m) = createHttpResponse BAD_REQUEST ''AppError''"
| "handleError (ZodError m) = createHttpResponse BAD_REQUEST ''Zod validation error''"
| "handleError (SyntaxError m) =
     (if js_includes m ''JSON''
      then createHttpResponse BAD_REQUEST ''Invalid JSON in request body''
      else createHttpResponse INTERNAL_SERVER_ERROR ''Internal Server Error'')"
| "handleError e = createHttpResponse INTERNAL_SERVER_ERROR ''Internal Server Error''"

section \<open>Identity resolver\<close>

text \<open>The part of \<open>APIGatewayProxyEventV2\<close> that the code reads; \<open>body\<close> is \<open>None\<close>
  when the event has none. \<open>pathParameters\<close> stands for what only event parsers read.\<close>

record APIGatewayProxyEventV2 =
  headers :: "(string \<times> string) list"
  body :: "string option"
  pathParameters :: "(string \<times> string) list"

record ValidUser =
  userId :: string
  keyId :: "string option"

text \<open>
  \<open>DecodedJwtSchema.parse\<close>: the claims are an object whose \<open>sub\<close> is a string and whose
  \<open>metadata\<close>, when present, is an object. The result is \<open>sub\<close> and the members of
  \<open>metadata\<close>.
\<close>

definition DecodedJwtSchema_parse :: "json \<Rightarrow> js_error + string \<times> (string \<times> json) list option" where
  "DecodedJwtSchema_parse j =
     (case j of
        JObj kvs \<Rightarrow>
          (case own_property kvs ''sub'' of
             Some (JStr sub) \<Rightarrow>
               (case own_property kvs ''metadata'' of
                  None \<Rightarrow> Inr (sub, None)
                | Some (JObj md) \<Rightarrow> Inr (sub, Some md)
                | Some other \<Rightarrow> Inl (ZodError ''metadata: Expected object''))
           | other \<Rightarrow> Inl (ZodError ''sub: Expected string''))
      | other \<Rightarrow> Inl (ZodError ''Expected object''))"

text \<open>
  \<open>getValidUserFromAuthHeader\<close>. The token is
  \<open>event.headers['authorization']?.split(' ')[1] || ''\<close>. Every error is caught and
  gives \<open>null\<close>; so does a \<open>keyId\<close> that \<open>ValidUserSchema.safeParse\<close> refuses because
  it is not a string.
\<close>

definition bearer_token :: "APIGatewayProxyEventV2 \<Rightarrow> string" where
  "bearer_token event =
     (case map_of (headers event) ''authorization'' of
        None \<Rightarrow> []
      | Some h \<Rightarrow> (case js_split (CHR '' '') h of a # t # rest \<Rightarrow> t | other \<Rightarrow> []))"

definition getValidUserFromAuthHeader :: "platform \<Rightarrow> APIGatewayProxyEventV2 \<Rightarrow> ValidUser option" where
  "getValidUserFromAuthHeader pf event =
     (case decodeToken pf (bearer_token event) of
        Inl e \<Rightarrow> None
      | Inr decodedJwt \<Rightarrow>
          (case DecodedJwtSchema_parse decodedJwt of
             Inl e \<Rightarrow> None
           | Inr (sub, metadata) \<Rightarrow>
               (case (case metadata of None \<Rightarrow> None | Some md \<Rightarrow> own_property md ''keyId'') of
                  None \<Rightarrow> Some \<lparr>userId = sub, keyId = None\<rparr>
                | Some (JStr k) \<Rightarrow> Some \<lparr>userId = sub, keyId = Some k\<rparr>
                | Some other \<Rightarrow> None)))"

text \<open>\<open>getValidUser\<close>: whatever goes wrong, the error thrown is \<open>new Error('Unauthorized')\<close>.\<close>

definition getValidUser :: "platform \<Rightarrow> APIGatewayProxyEventV2 \<Rightarrow> js_error + ValidUser" where
  "getValidUser pf event =
     (case getValidUserFromAuthHeader pf event of
        Some userDetailsFromAuthHeader \<Rightarrow> Inr userDetailsFromAuthHeader
      | None \<Rightarrow> Inl (Error ''Unauthorized''))"

section \<open>Request adapter\<close>

text \<open>\<open>LambdaAdapterOptions\<close>: every field may be absent (\<open>None\<close>).\<close>

record LambdaAdapterOptions =
  requireAuth :: "bool option"
  requireBody :: "bool option"
  requiredFields :: "string list option"

definition defaultOptions :: LambdaAdapterOptions where
  "defaultOptions = \<lparr>requireAuth = Some True, requireBody = Some True, requiredFields = Some []\<rparr>"

text \<open>
  \<open>LambdaAdapterParams\<close>. The schema, the event parser, the use case and the formatter
  are the caller's functions; each returns its value or the error it throws. \<open>'raw\<close> is
  what the event parser builds, \<open>'inp\<close> the validated input, \<open>'out\<close> the use case's
  result.
\<close>

record ('raw, 'inp, 'out) LambdaAdapterParams =
  schema :: "'raw \<Rightarrow> js_error + 'inp"
  useCase :: "'inp \<Rightarrow> js_error + 'out"
  eventParser :: "APIGatewayProxyEventV2 \<Rightarrow> ValidUser \<Rightarrow> js_error + 'raw"
  options :: "LambdaAdapterOptions option"
  responseFormatter :: "'out \<Rightarrow> js_error + HttpResponse"
  getUserInfo :: "(APIGatewayProxyEventV2 \<Rightarrow> js_error + ValidUser) option"

text \<open>The block "Authentication handling" of the handler.\<close>

definition authentication ::
  "(APIGatewayProxyEventV2 \<Rightarrow> js_error + ValidUser) \<Rightarrow> LambdaAdapterOptions \<Rightarrow>
   APIGatewayProxyEventV2 \<Rightarrow> js_error + ValidUser" where
  "authentication getUser opts event =
     (if requireAuth opts \<noteq> Some False
      then (case getUser event of
              Inl e \<Rightarrow> Inl e
            | Inr validUser \<Rightarrow>
                (if userId validUser = []
                 then Inl (createError BAD_REQUEST ''Missing user id'')
                 else Inr validUser))
      else Inr \<lparr>userId = [], keyId = None\<rparr>)"

text \<open>The loop "Check required fields".\<close>

fun check_required_fields :: "platform \<Rightarrow> json \<Rightarrow> string list \<Rightarrow> js_error + unit" where
  "check_required_fields pf parsedBody [] = Inr ()"
| "check_required_fields pf parsedBody (field # others) =
     (case js_get pf parsedBody field of
        Inl e \<Rightarrow> Inl e
      | Inr Undefined \<Rightarrow> Inl (createError BAD_REQUEST (''Missing required field: '' @ field))
      | Inr v \<Rightarrow> check_required_fields pf parsedBody others)"

text \<open>The block "Body validation if required". \<open>!event.body\<close> holds for a missing body
  and for the empty string.\<close>

definition body_validation ::
  "platform \<Rightarrow> LambdaAdapterOptions \<Rightarrow> APIGatewayProxyEventV2 \<Rightarrow> js_error + unit" where
  "body_validation pf opts event =
     (if requireBody opts \<noteq> Some False
      then (case body event of
              None \<Rightarrow> Inl (createError BAD_REQUEST ''Missing request body'')
            | Some b \<Rightarrow>
                (if b = [] then Inl (createError BAD_REQUEST ''Missing request body'')
                 else (case JSON_parse pf b of
                         Inl e \<Rightarrow> Inl e
                       | Inr parsedBody \<Rightarrow>
                           (case requiredFields opts of
                              None \<Rightarrow> Inr ()
                            | Some required \<Rightarrow>
                                (if length required > 0
                                 then check_required_fields pf parsedBody required
                                 else Inr ())))))
      else Inr ())"

text \<open>The defaults of the destructuring: \<open>options = defaultOptions\<close> and
  \<open>getUserInfo = defaultGetUserInfo\<close>, which calls \<open>getValidUser\<close>.\<close>

definition options_or_default :: "('raw, 'inp, 'out) LambdaAdapterParams \<Rightarrow> LambdaAdapterOptions" where
  "options_or_default params =
     (case options params of None \<Rightarrow> defaultOptions | Some given \<Rightarrow> given)"

definition getUserInfo_or_default ::
  "platform \<Rightarrow> ('raw, 'inp, 'out) LambdaAdapterParams \<Rightarrow>
   APIGatewayProxyEventV2 \<Rightarrow> js_error + ValidUser" where
  "getUserInfo_or_default pf params =
     (case getUserInfo params of None \<Rightarrow> getValidUser pf | Some given \<Rightarrow> given)"

text \<open>
  The handler that \<open>createLambdaAdapter\<close> returns. Its result is the response and the
  inputs with which \<open>useCase\<close> was called (none or one).
\<close>

definition createLambdaAdapter ::
  "platform \<Rightarrow> ('raw, 'inp, 'out) LambdaAdapterParams \<Rightarrow> APIGatewayProxyEventV2 \<Rightarrow>
   HttpResponse \<times> 'inp list" where
  "createLambdaAdapter pf params event =
     (let opts = options_or_default params;
          getUser = getUserInfo_or_default pf params
      in case authentication getUser opts event of
           Inl e \<Rightarrow> (handleError e, [])
         | Inr validUser \<Rightarrow>
             (case body_validation pf opts event of
                Inl e \<Rightarrow> (handleError e, [])
              | Inr u \<Rightarrow>
                  (case eventParser params event validUser of
                     Inl e \<Rightarrow> (handleError e, [])
                   | Inr input \<Rightarrow>
                       (case schema params input of
                          Inl e \<Rightarrow> (handleError e, [])
                        | Inr parsedInput \<Rightarrow>
                            (case useCase params parsedInput of
                               Inl e \<Rightarrow> (handleError e, [parsedInput])
                             | Inr result \<Rightarrow>
                                 (case responseFormatter params result of
                                    Inl e \<Rightarrow> (handleError e, [parsedInput])
                                  | Inr response \<Rightarrow> (response, [parsedInput])))))))"

subsection \<open>Example requests\<close>

text \<open>The JSON text of an object whose \<open>prompt\<close> is \<open>null\<close> and whose \<open>title\<close> is
  the empty string.\<close>

definition text_null_and_empty :: string where
  "text_null_and_empty =
     ''{'' @ quoted ''prompt'' @ '':null,'' @ quoted ''title'' @ '':'' @ quoted [] @ ''}''"

text \<open>A platform for the examples: \<open>JSON.parse\<close> on the three texts used, no
  runtime-supplied properties, and an identity provider that knows one token.\<close>

definition example_platform :: platform where
  "example_platform =
     \<lparr>JSON_parse = (\<lambda>s. if s = ''{}'' then Inr (JObj [])
                         else if s = ''null'' then Inr JNull
                         else if s = text_null_and_empty
                         then Inr (JObj [(''prompt'', JNull), (''title'', JStr [])])
                         else Inl (SyntaxError ''Unexpected token in JSON'')),
      has_builtin = (\<lambda>v f. False),
      decodeToken = (\<lambda>t. if t = ''token-u1'' then Inr (JObj [(''sub'', JStr ''u1'')])
                          else Inl (Error ''Invalid token''))\<rparr>"

definition research_params ::
  "LambdaAdapterOptions option \<Rightarrow> (string \<times> string, string \<times> string, string) LambdaAdapterParams" where
  "research_params opts =
     \<lparr>schema = (\<lambda>raw. Inr raw),
      useCase = (\<lambda>inp. Inr ''pending''),
      eventParser = (\<lambda>event validUser. Inr (userId validUser, case body event of None \<Rightarrow> [] | Some b \<Rightarrow> b)),
      options = opts,
      responseFormatter = (\<lambda>result. Inr (createHttpResponse 202 result)),
      getUserInfo = None\<rparr>"

definition event_without_credential :: APIGatewayProxyEventV2 where
  "event_without_credential = \<lparr>headers = [], body = Some ''{}'', pathParameters = []\<rparr>"

definition event_without_body :: APIGatewayProxyEventV2 where
  "event_without_body = \<lparr>headers = [], body = None, pathParameters = []\<rparr>"

definition event_authenticated_without_body :: APIGatewayProxyEventV2 where
  "event_authenticated_without_body =
     \<lparr>headers = [(''authorization'', ''Bearer token-u1'')], body = None, pathParameters = []\<rparr>"

definition event_empty_object :: APIGatewayProxyEventV2 where
  "event_empty_object =
     \<lparr>headers = [(''authorization'', ''Bearer token-u1'')], body = Some ''{}'', pathParameters = []\<rparr>"

definition event_null_and_empty :: APIGatewayProxyEventV2 where
  "event_null_and_empty =
     \<lparr>headers = [(''authorization'', ''Bearer token-u1'')], body = Some text_null_and_empty,
      pathParameters = []\<rparr>"

definition options_auth_and_prompt :: LambdaAdapterOptions where
  "options_auth_and_prompt =
     \<lparr>requireAuth = Some True, requireBody = Some True, requiredFields = Some [''prompt'']\<rparr>"

definition options_fields_without_body :: LambdaAdapterOptions where
  "options_fields_without_body =
     \<lparr>requireAuth = Some True, requireBody = Some False, requiredFields = Some [''prompt'']\<rparr>"

definition options_two_fields :: LambdaAdapterOptions where
  "options_two_fields =
     \<lparr>requireAuth = Some True, requireBody = Some True, requiredFields = Some [''prompt'', ''title'']\<rparr>"

section \<open>Queue adapter\<close>

text \<open>The fields of \<open>SQSRecord\<close> that the code reads (\<open>body\<close> is named
  \<open>record_body\<close> here), and the event.\<close>

record SQSRecord =
  messageId :: string
  record_body :: string
  eventSourceARN :: string
  receiptHandle :: string

record SQSEvent =
  Records :: "SQSRecord list option"

text \<open>
  A field of the options object that the caller passes: not there, there with the value
  \<open>undefined\<close>, or there with a value. All fields of \<open>SqsAdapterOptions\<close> are optional,
  so each can be any of the three.
\<close>

datatype 'a property = Missing | GivenUndefined | Given 'a

record SqsAdapterOptions =
  processInParallel :: "bool property"
  continueOnError :: "bool property"
  loggerPrefix :: "string property"
  verboseLogging :: "bool property"

text \<open>
  \<open>SqsAdapterParams\<close>; the fields whose names the request adapter already uses carry the
  suffix \<open>_sqs\<close>. \<open>messageExtractor\<close> is the extractor in force, the caller's or the
  default one: it returns the raw message or the error it throws. The schema and the use
  case likewise return their value or the error they throw, for the argument given.
\<close>

record ('raw, 'inp, 'out) SqsAdapterParams =
  schema_sqs :: "'raw \<Rightarrow> js_error + 'inp"
  useCase_sqs :: "'inp \<Rightarrow> js_error + 'out"
  messageExtractor :: "SQSRecord \<Rightarrow> js_error + 'raw"
  options_sqs :: "SqsAdapterOptions option"
  adapterName :: string

text \<open>
  \<open>mergedOptions = { ...defaultOptions, ...options }\<close>, for the two options that steer
  the processing, each read as the condition of an \<open>if\<close>. When \<open>params.options\<close> is
  not given, \<open>options\<close> is \<open>defaultOptions\<close>. The spread copies every field that is
  there over the default: a field that is missing keeps the default \<open>true\<close>, a field
  given as \<open>undefined\<close> replaces the default and counts as false, a field given as a
  boolean is that boolean.
\<close>

definition merged_processInParallel :: "('raw, 'inp, 'out) SqsAdapterParams \<Rightarrow> bool" where
  "merged_processInParallel params =
     (case options_sqs params of
        None \<Rightarrow> True
      | Some opts \<Rightarrow>
          (case processInParallel opts of
             Missing \<Rightarrow> True
           | GivenUndefined \<Rightarrow> False
           | Given b \<Rightarrow> b))"

definition merged_continueOnError :: "('raw, 'inp, 'out) SqsAdapterParams \<Rightarrow> bool" where
  "merged_continueOnError params =
     (case options_sqs params of
        None \<Rightarrow> True
      | Some opts \<Rightarrow>
          (case continueOnError opts of
             Missing \<Rightarrow> True
           | GivenUndefined \<Rightarrow> False
           | Given b \<Rightarrow> b))"

text \<open>\<open>getQueueUrlFromArn\<close>; its \<open>catch\<close> logs and throws the same error again.\<close>

definition getQueueUrlFromArn :: "string \<Rightarrow> js_error + string" where
  "getQueueUrlFromArn arnString =
     (let parts = js_split (CHR '':'') arnString
      in if length parts < 6 then Inl (Error ''Invalid ARN format'')
         else Inr (''https://sqs.'' @ parts ! 3 @ ''.amazonaws.com/'' @ parts ! 4 @ ''/'' @ parts ! 5))"

text \<open>
  What the adapter does for the record with the given \<open>messageId\<close>, in order:
  \<open>processRecord\<close> is entered, the use case is called and settles, a
  \<open>DeleteMessageCommand\<close> with the given \<open>QueueUrl\<close> and \<open>ReceiptHandle\<close> is sent and
  settles.
\<close>

datatype sqs_event =
    ProcessRecord string
  | UseCase string outcome
  | DeleteMessage string string outcome

text \<open>One entry of the array that the handler returns: the use case's result, or the
  object \<open>{ error: errorMessage }\<close>.\<close>

datatype 'out record_result = Processed 'out | RecordError string

datatype 'out batch_result = Results "'out record_result list" | Fatal HttpResponse

text \<open>
  The \<open>try\<close> block of \<open>processRecord\<close>. \<open>send\<close> is \<open>sqsClient.send\<close> applied to a
  \<open>DeleteMessageCommand\<close> with the given \<open>QueueUrl\<close> and \<open>ReceiptHandle\<close>; it resolves
  or rejects. \<open>!record.eventSourceARN\<close> holds for the empty string.
\<close>

definition process_try ::
  "(string \<Rightarrow> string \<Rightarrow> js_error + unit) \<Rightarrow> ('raw, 'inp, 'out) SqsAdapterParams \<Rightarrow> SQSRecord \<Rightarrow>
   (js_error + 'out) \<times> sqs_event list" where
  "process_try send params r =
     (case messageExtractor params r of
        Inl e \<Rightarrow> (Inl e, [])
      | Inr rawMessage \<Rightarrow>
          (case schema_sqs params rawMessage of
             Inl e \<Rightarrow> (Inl e, [])
           | Inr validatedInput \<Rightarrow>
               (case useCase_sqs params validatedInput of
                  Inl e \<Rightarrow> (Inl e, [UseCase (messageId r) (Rejected e)])
                | Inr result \<Rightarrow>
                    (if eventSourceARN r = []
                     then (Inl (Error ''Missing eventSourceARN in SQS record''),
                           [UseCase (messageId r) Resolved])
                     else (case getQueueUrlFromArn (eventSourceARN r) of
                             Inl e \<Rightarrow> (Inl e, [UseCase (messageId r) Resolved])
                           | Inr queueUrl \<Rightarrow>
                               (case send queueUrl (receiptHandle r) of
                                  Inl e \<Rightarrow>
                                    (Inl e,
                                     [UseCase (messageId r) Resolved,
                                      DeleteMessage queueUrl (receiptHandle r) (Rejected e)])
                                | Inr u \<Rightarrow>
                                    (Inr result,
                                     [UseCase (messageId r) Resolved,
                                      DeleteMessage queueUrl (receiptHandle r) Resolved])))))))"

text \<open>\<open>processRecord\<close>: the \<open>try\<close> block and its \<open>catch\<close>.\<close>

definition processRecord ::
  "(string \<Rightarrow> string \<Rightarrow> js_error + unit) \<Rightarrow> ('raw, 'inp, 'out) SqsAdapterParams \<Rightarrow> SQSRecord \<Rightarrow>
   (js_error + 'out record_result) \<times> sqs_event list" where
  "processRecord send params r =
     (case process_try send params r of
        (Inr result, tr) \<Rightarrow> (Inr (Processed result), ProcessRecord (messageId r) # tr)
      | (Inl recordError, tr) \<Rightarrow>
          (if merged_continueOnError params
           then (Inr (RecordError (error_message recordError)), ProcessRecord (messageId r) # tr)
           else (Inl recordError, ProcessRecord (messageId r) # tr)))"

text \<open>The sequential branch: \<open>for (const record of event.Records)
  results.push(await processRecord(record))\<close>. A rejection leaves the loop.\<close>

fun process_sequentially ::
  "(string \<Rightarrow> string \<Rightarrow> js_error + unit) \<Rightarrow> ('raw, 'inp, 'out) SqsAdapterParams \<Rightarrow> SQSRecord list \<Rightarrow>
   (js_error + 'out record_result list) \<times> sqs_event list" where
  "process_sequentially send params [] = (Inr [], [])"
| "process_sequentially send params (r # rs) =
     (case processRecord send params r of
        (Inl e, tr) \<Rightarrow> (Inl e, tr)
      | (Inr x, tr) \<Rightarrow>
          (case process_sequentially send params rs of
             (Inl e, tr') \<Rightarrow> (Inl e, tr @ tr')
           | (Inr xs, tr') \<Rightarrow> (Inr (x # xs), tr @ tr')))"

text \<open>
  The parallel branch: \<open>Promise.all(event.Records.map(processRecord))\<close>.
  \<open>processRecord\<close> is called for every record; a rejection cancels nothing.
  \<open>Promise.all\<close> resolves with all results in array order, or rejects with the error of
  the record whose promise rejects first. Which one that is depends on when the promises
  settle, so the model takes it from \<open>first_rejected\<close>, applied to the errors of the
  rejected records in array order. The events of one record are in their order; the
  events of different records may interleave, and the model lists the records one after
  the other.
\<close>

fun rejections :: "((js_error + 'x) \<times> 't) list \<Rightarrow> js_error list" where
  "rejections [] = []"
| "rejections ((Inl e, tr) # rest) = e # rejections rest"
| "rejections ((Inr x, tr) # rest) = rejections rest"

fun fulfilments :: "((js_error + 'x) \<times> 't) list \<Rightarrow> 'x list" where
  "fulfilments [] = []"
| "fulfilments ((Inl e, tr) # rest) = fulfilments rest"
| "fulfilments ((Inr x, tr) # rest) = x # fulfilments rest"

definition process_in_parallel ::
  "(string \<Rightarrow> string \<Rightarrow> js_error + unit) \<Rightarrow> (js_error list \<Rightarrow> js_error) \<Rightarrow>
   ('raw, 'inp, 'out) SqsAdapterParams \<Rightarrow> SQSRecord list \<Rightarrow>
   (js_error + 'out record_result list) \<times> sqs_event list" where
  "process_in_parallel send first_rejected params rs =
     (let settled = map (processRecord send params) rs
      in (if rejections settled = [] then Inr (fulfilments settled)
          else Inl (first_rejected (rejections settled)),
          concat (map snd settled)))"

text \<open>The handler that \<open>createSqsAdapter\<close> returns, with the events of the batch.\<close>

definition createSqsAdapter ::
  "(string \<Rightarrow> string \<Rightarrow> js_error + unit) \<Rightarrow> (js_error list \<Rightarrow> js_error) \<Rightarrow>
   ('raw, 'inp, 'out) SqsAdapterParams \<Rightarrow> SQSEvent \<Rightarrow> 'out batch_result \<times> sqs_event list" where
  "createSqsAdapter send first_rejected params event =
     (case Records event of
        None \<Rightarrow> (Fatal (handleError (Error ''Missing SQS Records'')), [])
      | Some rs \<Rightarrow>
          (if length rs = 0 then (Fatal (handleError (Error ''Missing SQS Records'')), [])
           else (case (if merged_processInParallel params
                       then process_in_parallel send first_rejected params rs
                       else process_sequentially send params rs) of
                   (Inl e, tr) \<Rightarrow> (Fatal (handleError e), tr)
                 | (Inr xs, tr) \<Rightarrow> (Results xs, tr))))"

text \<open>The \<open>DeleteMessageCommand\<close>s that resolved: \<open>QueueUrl\<close> and \<open>ReceiptHandle\<close> of
  each deleted message.\<close>

fun deleted :: "sqs_event list \<Rightarrow> (string \<times> string) list" where
  "deleted [] = []"
| "deleted (DeleteMessage url h Resolved # tr) = (url, h) # deleted tr"
| "deleted (ev # tr) = deleted tr"

text \<open>\<open>pipeline_result params r\<close>: how extraction, validation and the use case end for
  the record \<open>r\<close>.\<close>

definition pipeline_result :: "('raw, 'inp, 'out) SqsAdapterParams \<Rightarrow> SQSRecord \<Rightarrow> js_error + 'out" where
  "pipeline_result params r =
     (case messageExtractor params r of
        Inl e \<Rightarrow> Inl e
      | Inr rawMessage \<Rightarrow>
          (case schema_sqs params rawMessage of
             Inl e \<Rightarrow> Inl e
           | Inr validatedInput \<Rightarrow> useCase_sqs params validatedInput))"

text \<open>\<open>record_entry send params r\<close>: what the \<open>try\<close> block of \<open>processRecord\<close> leaves
  for the record \<open>r\<close> when errors are collected: the use case's result, or
  \<open>{ error: message }\<close> with the message of the error thrown.\<close>

definition record_entry ::
  "(string \<Rightarrow> string \<Rightarrow> js_error + unit) \<Rightarrow> ('raw, 'inp, 'out) SqsAdapterParams \<Rightarrow> SQSRecord \<Rightarrow>
   'out record_result" where
  "record_entry send params r =
     (case fst (process_try send params r) of
        Inl e \<Rightarrow> RecordError (error_message e)
      | Inr v \<Rightarrow> Processed v)"

text \<open>\<open>record_events send params r\<close>: the events of one call of \<open>processRecord\<close>.\<close>

definition record_events ::
  "(string \<Rightarrow> string \<Rightarrow> js_error + unit) \<Rightarrow> ('raw, 'inp, 'out) SqsAdapterParams \<Rightarrow> SQSRecord \<Rightarrow>
   sqs_event list" where
  "record_events send params r = ProcessRecord (messageId r) # snd (process_try send params r)"

subsection \<open>Example batches\<close>

text \<open>The raw message is the record's body; the schema refuses the body \<open>bad\<close>; the use
  case returns the length of its input; every delete resolves.\<close>

definition queue_params :: "SqsAdapterOptions option \<Rightarrow> (string, string, nat) SqsAdapterParams" where
  "queue_params opts =
     \<lparr>schema_sqs = (\<lambda>raw. if raw = ''bad'' then Inl (ZodError ''Required'') else Inr raw),
      useCase_sqs = (\<lambda>inp. Inr (length inp)),
      messageExtractor = (\<lambda>r. Inr (record_body r)),
      options_sqs = opts,
      adapterName = ''RESEARCH''\<rparr>"

definition send_ok :: "string \<Rightarrow> string \<Rightarrow> js_error + unit" where
  "send_ok url h = Inr ()"

definition queue_record :: "string \<Rightarrow> string \<Rightarrow> string \<Rightarrow> SQSRecord" where
  "queue_record mid b arn =
     \<lparr>messageId = mid, record_body = b, eventSourceARN = arn, receiptHandle = ''rh-'' @ mid\<rparr>"

definition queue_arn :: string where
  "queue_arn = ''arn:aws:sqs:us-east-1:123456789012:research''"

definition queue_url :: string where
  "queue_url = ''https://sqs.us-east-1.amazonaws.com/123456789012/research''"

definition options_sequential :: "bool \<Rightarrow> SqsAdapterOptions" where
  "options_sequential continue =
     \<lparr>processInParallel = Given False, continueOnError = Given continue,
      loggerPrefix = Missing, verboseLogging = Missing\<rparr>"

definition options_parallel_abort :: SqsAdapterOptions where
  "options_parallel_abort =
     \<lparr>processInParallel = Given True, continueOnError = Given False,
      loggerPrefix = Missing, verboseLogging = Missing\<rparr>"

text \<open>\<open>{ processInParallel: false, continueOnError: undefined }\<close> and
  \<open>{ processInParallel: undefined, continueOnError: false }\<close>\<close>

definition options_continue_undefined :: SqsAdapterOptions where
  "options_continue_undefined =
     \<lparr>processInParallel = Given False, continueOnError = GivenUndefined,
      loggerPrefix = Missing, verboseLogging = Missing\<rparr>"

definition options_parallel_undefined :: SqsAdapterOptions where
  "options_parallel_undefined =
     \<lparr>processInParallel = GivenUndefined, continueOnError = Given False,
      loggerPrefix = Missing, verboseLogging = Missing\<rparr>"

definition batch_of_three :: "SQSRecord list" where
  "batch_of_three =
     [queue_record ''m1'' ''alpha'' queue_arn, queue_record ''m2'' ''bad'' queue_arn,
      queue_record ''m3'' ''gamma'' queue_arn]"

section \<open>Properties of the saga orchestrator\<close>

lemma steps_foldl_addStep: "steps (foldl addStep s sts) = steps s @ sts"
  by (induction sts arbitrary: s) (simp_all add: addStep_def)

lemma results_foldl_addStep: "results (foldl addStep s sts) = results s"
  by (induction sts arbitrary: s) (simp_all add: addStep_def)

lemma completedSteps_foldl_addStep: "completedSteps (foldl addStep s sts) = completedSteps s"
  by (induction sts arbitrary: s) (simp_all add: addStep_def)

lemma build_fields:
  "steps (build sts) = sts" "results (build sts) = []" "completedSteps (build sts) = 0"
  by (simp_all add: build_def new_Saga_def steps_foldl_addStep results_foldl_addStep
      completedSteps_foldl_addStep)

lemma fails_at_less: "fails_at sts w k e \<Longrightarrow> k < length sts"
  by (induction sts arbitrary: w k) (auto split: prod.splits sum.splits nat.splits)

text \<open>The forward loop up to the step that rejects: the state of the world it leaves is the
  one after the \<open>execute\<close> closures of the steps up to and including that step.\<close>

lemma execute_loop_fails:
  "fails_at (drop i (steps s)) w k e \<Longrightarrow>
   \<exists>rs. execute_loop s i w =
      (Inl e, s\<lparr>results := results s @ rs, completedSteps := completedSteps s + k\<rparr>,
       world_after (drop i (steps s)) w (Suc k),
       map (\<lambda>j. Execute j Resolved) [i..<i + k] @ [Execute (i + k) (Rejected e)])"
proof (induction k arbitrary: s i w)
  case 0
  then have i: "i < length (steps s)" using fails_at_less by fastforce
  then have d: "drop i (steps s) = steps s ! i # drop (Suc i) (steps s)"
    by (simp add: Cons_nth_drop_Suc)
  from 0 d obtain w' where "execute (steps s ! i) w = (Inl e, w')"
    by (auto split: prod.splits sum.splits)
  with i d show ?case
    by (subst execute_loop.simps) (auto intro: exI[of _ "[]"])
next
  case (Suc k)
  then have i: "i < length (steps s)" using fails_at_less by fastforce
  then have d: "drop i (steps s) = steps s ! i # drop (Suc i) (steps s)"
    by (simp add: Cons_nth_drop_Suc)
  from Suc.prems d obtain r w' where ex: "execute (steps s ! i) w = (Inr r, w')"
    and f: "fails_at (drop (Suc i) (steps s)) w' k e"
    by (auto split: prod.splits sum.splits)
  let ?s = "s\<lparr>results := results s @ [r], completedSteps := completedSteps s + 1\<rparr>"
  from f have "fails_at (drop (Suc i) (steps ?s)) w' k e" by simp
  from Suc.IH[OF this] obtain rs where
    "execute_loop ?s (Suc i) w' =
      (Inl e, ?s\<lparr>results := results ?s @ rs, completedSteps := completedSteps ?s + k\<rparr>,
       world_after (drop (Suc i) (steps ?s)) w' (Suc k),
       map (\<lambda>j. Execute j Resolved) [Suc i..<Suc i + k] @ [Execute (Suc i + k) (Rejected e)])"
    by blast
  with i ex d show ?case
    by (subst execute_loop.simps) (auto intro!: exI[of _ "r # rs"] simp: upt_conv_Cons)
qed

lemma apply_compensations_append:
  "apply_compensations sts (xs @ ys) w =
     apply_compensations sts ys (apply_compensations sts xs w)"
  by (induction xs arbitrary: w) simp_all

lemma compensation_events_append:
  "compensation_events sts (xs @ ys) w =
     compensation_events sts xs w @
     compensation_events sts ys (apply_compensations sts xs w)"
  by (induction xs arbitrary: w) simp_all

text \<open>The rollback loop, entered with the count \<open>c\<close>, calls the \<open>compensate\<close> closures
  of the steps below \<open>c\<close> that exist, from the highest down to step \<open>0\<close>, and passes the
  state that each call leaves to the next.\<close>

lemma compensate_loop_descending:
  "compensate_loop sts c w =
     (apply_compensations sts (rev [0..<min c (length sts)]) w,
      compensation_events sts (rev [0..<min c (length sts)]) w)"
proof (induction c arbitrary: w)
  case 0
  show ?case by simp
next
  case (Suc c)
  show ?case
  proof (cases "c < length sts")
    case True
    then have m: "min (Suc c) (length sts) = Suc c" "min c (length sts) = c" by simp_all
    from True Suc[of "snd (compensate (sts ! c) w)"] show ?thesis
      by (simp add: m split_beta)
  next
    case False
    then have "min (Suc c) (length sts) = min c (length sts)" by simp
    with False Suc[of w] show ?thesis by simp
  qed
qed

lemma Saga_execute_fails:
  assumes "fails_at (steps s) w k e"
  shows "\<exists>rs. Saga_execute s w =
     (Inl e, s\<lparr>results := results s @ rs, completedSteps := completedSteps s + k\<rparr>,
      apply_compensations (steps s)
        (rev [0..<min (completedSteps s + k) (length (steps s))])
        (world_after (steps s) w (Suc k)),
      map (\<lambda>j. Execute j Resolved) [0..<k] @ [Execute k (Rejected e)] @
      compensation_events (steps s)
        (rev [0..<min (completedSteps s + k) (length (steps s))])
        (world_after (steps s) w (Suc k)))"
proof -
  from assms have "fails_at (drop 0 (steps s)) w k e" by simp
  from execute_loop_fails[OF this] obtain rs where
    "execute_loop s 0 w =
      (Inl e, s\<lparr>results := results s @ rs, completedSteps := completedSteps s + k\<rparr>,
       world_after (drop 0 (steps s)) w (Suc k),
       map (\<lambda>j. Execute j Resolved) [0..<0 + k] @ [Execute (0 + k) (Rejected e)])"
    by blast
  then show ?thesis
    by (auto simp: Saga_execute_def Saga_compensate_def compensate_loop_descending
        intro!: exI[of _ rs])
qed

lemma rev_upt_split:
  "j < n \<Longrightarrow> rev [0..<n] = rev [Suc j..<n] @ j # rev [0..<j]"
proof -
  assume "j < n"
  then have "[0..<n] = [0..<j] @ j # [Suc j..<n]"
    by (metis le0 less_imp_le_nat upt_add_eq_append upt_conv_Cons le_add_diff_inverse)
  then show ?thesis by simp
qed

lemmas example_sagas =
  step_ok_def step_once_def saga_once_def saga_two_ok_def
  journal_step_def journal_step_bad_rollback_def journal_step_throws_def journal_step_once_def
  journal_three_steps_def journal_bad_rollback_def journal_once_def

lemmas saga_unfold =
  Saga_execute_def Saga_compensate_def build_def new_Saga_def addStep_def execute_loop.simps

text \<open>
  Claim C2, amended. Take a saga instance on which no earlier \<open>execute()\<close> has completed
  a step (a newly built saga is one), and let the \<open>execute\<close> of the steps \<open>0..k-1\<close>
  resolve and that of step \<open>k\<close> reject with \<open>e\<close>. Then \<open>execute()\<close> returns: it has
  called \<open>execute\<close> for the steps \<open>0..k\<close> and no other, then the \<open>compensate\<close> closures
  of exactly the steps \<open>k-1, k-2, ..., 0\<close>, in this order, each from the state of the
  world that the call before it left (so never that of step \<open>k\<close> or of a later step);
  the world ends in the state these calls leave; and the promise rejects with \<open>e\<close>
  itself.
\<close>

theorem saga_failure_compensates_descending:
  assumes "completedSteps s = 0"
    and "fails_at (steps s) w k e"
  shows "\<exists>s'. Saga_execute s w =
     (Inl e, s',
      apply_compensations (steps s) (rev [0..<k]) (world_after (steps s) w (Suc k)),
      map (\<lambda>j. Execute j Resolved) [0..<k] @ [Execute k (Rejected e)] @
      compensation_events (steps s) (rev [0..<k]) (world_after (steps s) w (Suc k)))"
proof -
  from fails_at_less[OF assms(2)] assms(1)
  have "min (completedSteps s + k) (length (steps s)) = k" by simp
  with Saga_execute_fails[OF assms(2)] show ?thesis by auto
qed

theorem saga_failure_compensates_descending_witness:
  "completedSteps (build journal_three_steps) = 0 \<and>
   fails_at (steps (build journal_three_steps)) [] 2 (Error ''db down'') \<and>
   (\<exists>s'. Saga_execute (build journal_three_steps) [] =
     (Inl (Error ''db down''), s',
      [''create user'', ''create key'', ''cannot create row'', ''remove key'', ''remove user''],
      [Execute 0 Resolved, Execute 1 Resolved, Execute 2 (Rejected (Error ''db down'')),
       Compensate 1 Resolved, Compensate 0 Resolved]))"
proof -
  have c: "completedSteps (build journal_three_steps) = 0" by (simp add: build_fields)
  have h: "fails_at (steps (build journal_three_steps)) [] 2 (Error ''db down'')"
    by (simp add: build_fields example_sagas)
  have st: "steps (build journal_three_steps) = journal_three_steps" by (simp add: build_fields)
  have u: "rev [0..<2] = [1, 0::nat]" "[0..<2] = [0, 1::nat]" by (simp_all add: upt_rec)
  have w: "world_after journal_three_steps [] (Suc 2) =
      [''create user'', ''create key'', ''cannot create row'']"
    by (simp add: example_sagas numeral_2_eq_2)
  from saga_failure_compensates_descending[OF c h] c h show ?thesis
    unfolding st u w by (simp add: example_sagas)
qed

text \<open>
  Claim C2 as stated fails on an instance that was executed before: \<open>completedSteps\<close>
  is never reset. The first \<open>execute()\<close> of the saga resolves. In the second, on the same
  instance, step \<open>0\<close> rejects (no step before it), and the orchestrator calls the
  \<open>compensate\<close> of step \<open>0\<close>, the very step that failed: the journal shows the removal.
\<close>

theorem saga_reused_compensates_failed_step:
  "fst (Saga_execute (build journal_once) []) = Inr [''user''] \<and>
   fails_at (steps (fst (snd (Saga_execute (build journal_once) []))))
     (fst (snd (snd (Saga_execute (build journal_once) [])))) 0 (Error ''already registered'') \<and>
   Saga_execute (fst (snd (Saga_execute (build journal_once) [])))
     (fst (snd (snd (Saga_execute (build journal_once) [])))) =
   (Inl (Error ''already registered''),
    fst (snd (Saga_execute (build journal_once) [])),
    [''create user'', ''cannot create user'', ''remove user''],
    [Execute 0 (Rejected (Error ''already registered'')), Compensate 0 Resolved])"
  by (simp add: example_sagas saga_unfold)

text \<open>
  Claim C7. In an execution of a saga, whatever the state of the instance, let the
  \<open>execute\<close> of the steps \<open>0..k-1\<close> resolve and that of step \<open>k\<close> reject with \<open>e\<close>;
  let \<open>reach\<close> be the number of steps the rollback reaches (\<open>k\<close> on a newly built saga),
  and let the \<open>compensate\<close> of a step \<open>j\<close> below \<open>reach\<close> reject with \<open>ce\<close> when its
  turn comes, after those of the steps \<open>reach-1, ..., j+1\<close>. Then \<open>execute()\<close> returns:
  after the rejected call the orchestrator still calls the \<open>compensate\<close> closures of the
  steps \<open>j-1, ..., 0\<close>, in this order, starting from the state the rejected call left;
  the world ends in the state these calls leave; and the promise rejects with \<open>e\<close>, the
  error of step \<open>k\<close>, not with \<open>ce\<close>.
\<close>

theorem saga_rollback_survives_compensation_failure:
  assumes "fails_at (steps s) w k e"
    and "reach = min (completedSteps s + k) (length (steps s))"
    and "j < reach"
    and "w0 = world_after (steps s) w (Suc k)"
    and "compensate (steps s ! j) (apply_compensations (steps s) (rev [Suc j..<reach]) w0) =
           (Inl ce, wj)"
  shows "\<exists>s'. Saga_execute s w =
     (Inl e, s',
      apply_compensations (steps s) (rev [0..<j]) wj,
      map (\<lambda>i. Execute i Resolved) [0..<k] @ [Execute k (Rejected e)] @
      compensation_events (steps s) (rev [Suc j..<reach]) w0 @
      [Compensate j (Rejected ce)] @
      compensation_events (steps s) (rev [0..<j]) wj)"
proof -
  from assms(3) have split: "rev [0..<reach] = rev [Suc j..<reach] @ j # rev [0..<j]"
    by (rule rev_upt_split)
  from assms(5)
  have a: "apply_compensations (steps s) (rev [0..<reach]) w0 =
      apply_compensations (steps s) (rev [0..<j]) wj"
    unfolding split by (simp add: apply_compensations_append)
  from assms(5)
  have ev: "compensation_events (steps s) (rev [0..<reach]) w0 =
      compensation_events (steps s) (rev [Suc j..<reach]) w0 @
      [Compensate j (Rejected ce)] @ compensation_events (steps s) (rev [0..<j]) wj"
    unfolding split by (simp add: compensation_events_append)
  from Saga_execute_fails[OF assms(1)] show ?thesis
    unfolding assms(2)[symmetric] assms(4)[symmetric] a ev by auto
qed

theorem saga_rollback_survives_compensation_failure_witness:
  "fails_at (steps (build journal_bad_rollback)) [] 2 (Error ''db down'') \<and>
   (2::nat) = min (completedSteps (build journal_bad_rollback) + 2)
                (length (steps (build journal_bad_rollback))) \<and>
   (1::nat) < 2 \<and>
   compensate (steps (build journal_bad_rollback) ! 1)
       [''create user'', ''create key'', ''cannot create row''] =
     (Inl (Error ''kms down''),
      [''create user'', ''create key'', ''cannot create row'', ''cannot remove key'']) \<and>
   (\<exists>s'. Saga_execute (build journal_bad_rollback) [] =
     (Inl (Error ''db down''), s',
      [''create user'', ''create key'', ''cannot create row'', ''cannot remove key'',
       ''remove user''],
      [Execute 0 Resolved, Execute 1 Resolved, Execute 2 (Rejected (Error ''db down'')),
       Compensate 1 (Rejected (Error ''kms down'')), Compensate 0 Resolved]))"
proof -
  let ?sts = "journal_bad_rollback"
  let ?w0 = "[''create user'', ''create key'', ''cannot create row'']"
  let ?wj = "[''create user'', ''create key'', ''cannot create row'', ''cannot remove key'']"
  have st: "steps (build ?sts) = ?sts" by (simp add: build_fields)
  have h: "fails_at (steps (build ?sts)) [] 2 (Error ''db down'')"
    by (simp add: build_fields example_sagas)
  have t: "(2::nat) = min (completedSteps (build ?sts) + 2) (length (steps (build ?sts)))"
    by (simp add: build_fields journal_bad_rollback_def)
  have j: "(1::nat) < 2" by simp
  have w0: "?w0 = world_after (steps (build ?sts)) [] (Suc 2)"
    by (simp add: build_fields example_sagas numeral_2_eq_2)
  have u: "rev [Suc 1..<2] = ([]::nat list)" "rev [0..<1] = [0::nat]" "[0..<2] = [0, 1::nat]"
    by (simp_all add: upt_rec)
  have c: "compensate (steps (build ?sts) ! 1)
      (apply_compensations (steps (build ?sts)) (rev [Suc 1..<2]) ?w0) =
      (Inl (Error ''kms down''), ?wj)"
    unfolding st u by (simp add: example_sagas)
  have c': "compensate (steps (build ?sts) ! 1) ?w0 = (Inl (Error ''kms down''), ?wj)"
    using c unfolding st u by simp
  from saga_rollback_survives_compensation_failure[OF h t j w0 c] h t j c' show ?thesis
    unfolding st u by (simp add: example_sagas)
qed






section \<open>Properties of the retry policy\<close>

lemma retry_loop_settles:
  "settles_after fn w m = Some (x, w') \<Longrightarrow> a + int m \<le> retries config \<Longrightarrow>
   a + int m = retries config \<or> \<not> retryable_rejection x \<Longrightarrow>
   retry_loop fn config a w = (x, w', concat (replicate m [Call, Sleep (delay config)]) @ [Call])"
proof (induction m arbitrary: a w)
  case 0
  then show ?case
    by (subst retry_loop.simps) (auto split: sum.splits)
next
  case (Suc m)
  from Suc.prems(1) obtain e w1 where f: "fn w = (Inl e, w1)" and r: "is_retryable e"
    and s: "settles_after fn w1 m = Some (x, w')"
    by (auto split: prod.splits sum.splits if_splits)
  from Suc.prems have "(a + 1) + int m \<le> retries config"
    "(a + 1) + int m = retries config \<or> \<not> retryable_rejection x" by auto
  from Suc.IH[OF s this] f r Suc.prems(2) show ?case
    by (subst retry_loop.simps) simp
qed

lemma retry_loop_ignores_onRetry:
  "retry_loop fn (config\<lparr>onRetry := f\<rparr>) a w = retry_loop fn config a w"
proof (induction fn config a w rule: retry_loop.induct)
  case (1 fn config attempt w)
  show ?case
    apply (subst retry_loop.simps)
    apply (subst (2) retry_loop.simps)
    using 1 by (auto split: prod.splits sum.splits)
qed

text \<open>Whatever callback is configured, the wrapper returns the same result, leaves the same
  state of the world and does the same things: the callback is never applied.\<close>

lemma withRetry_ignores_onRetry:
  "withRetry fn (config\<lparr>onRetry := f\<rparr>) w = withRetry fn config w"
  by (simp add: withRetry_def retry_loop_ignores_onRetry)

text \<open>With \<open>retries\<close> below one the function is not called at all, and the error is the
  wrapper's own.\<close>

lemma withRetry_no_attempt:
  "retries config \<le> 0 \<Longrightarrow>
   withRetry fn config w =
     (Inl (Error ''Max retries reached. Unable to generate valid output.''), w, [])"
  unfolding withRetry_def by (subst retry_loop.simps) simp

lemma count_calls:
  "length (filter (\<lambda>ev. ev = Call) (concat (replicate m [Call, Sleep d]))) = m"
  by (induction m) simp_all

lemmas example_retry =
  withRetry_def retry_loop.simps flaky_fn_def invalid_fn_def research_retry_config_def
  counting_onRetry_def

text \<open>
  Claim C8. Let the first \<open>m\<close> calls of the wrapped function reject with retryable errors
  (\<open>ZodError\<close> or \<open>SyntaxError\<close>), let call \<open>m + 1\<close> be within \<open>retries\<close>, and let it
  either be the last one allowed (\<open>m + 1 = retries\<close>) or settle otherwise than with a
  retryable error (it resolves, or rejects with another error). Then the wrapper calls the
  function exactly \<open>m + 1\<close> times, that is the minimum of \<open>retries\<close> and the number
  of attempts until a call settles for good; it sleeps the fixed \<open>delay\<close> between two
  consecutive calls and nowhere else; and it settles exactly as call \<open>m + 1\<close> did. So an
  error that is not retryable is followed by no retry, and after the last allowed attempt
  the last error is thrown unchanged.
\<close>

theorem withRetry_attempts:
  assumes "settles_after fn w m = Some (x, w')"
    and "int m < retries config"
    and "int (Suc m) = retries config \<or> \<not> retryable_rejection x"
  shows "withRetry fn config w =
           (x, w', concat (replicate m [Call, Sleep (delay config)]) @ [Call]) \<and>
         length (filter (\<lambda>ev. ev = Call) (snd (snd (withRetry fn config w)))) =
           min (nat (retries config)) (Suc m)"
proof -
  have run: "withRetry fn config w =
      (x, w', concat (replicate m [Call, Sleep (delay config)]) @ [Call])"
    unfolding withRetry_def using assms by (intro retry_loop_settles) auto
  from assms(2) have "min (nat (retries config)) (Suc m) = Suc m" by simp
  with run show ?thesis by (simp add: count_calls)
qed

theorem withRetry_attempts_witness:
  "settles_after invalid_fn (0, 0) 2 = Some (Inl (SyntaxError ''Unexpected token < in JSON''), (3, 0)) \<and>
   int 2 < retries research_retry_config \<and>
   int (Suc 2) = retries research_retry_config \<and>
   withRetry invalid_fn research_retry_config (0, 0) =
     (Inl (SyntaxError ''Unexpected token < in JSON''), (3, 0),
      [Call, Sleep 1000, Call, Sleep 1000, Call]) \<and>
   length (filter (\<lambda>ev. ev = Call)
     (snd (snd (withRetry invalid_fn research_retry_config (0, 0))))) = 3"
proof -
  have s: "settles_after invalid_fn (0, 0) 2 =
      Some (Inl (SyntaxError ''Unexpected token < in JSON''), (3, 0))"
    by (simp add: invalid_fn_def numeral_2_eq_2 numeral_3_eq_3)
  have l: "int 2 < retries research_retry_config"
    by (simp add: research_retry_config_def)
  have d: "int (Suc 2) = retries research_retry_config \<or>
      \<not> retryable_rejection (Inl (SyntaxError ''Unexpected token < in JSON'') :: js_error + string)"
    by (simp add: research_retry_config_def)
  have c: "concat (replicate 2 [Call, Sleep (delay research_retry_config)]) @ [Call] =
      [Call, Sleep 1000, Call, Sleep 1000, Call]"
    by (simp add: research_retry_config_def numeral_2_eq_2)
  have n: "min (nat (retries research_retry_config)) (Suc 2) = 3"
    by (simp add: research_retry_config_def)
  from withRetry_attempts[OF s l d] s l c n show ?thesis
    by (simp add: research_retry_config_def)
qed

text \<open>
  Claim C5: the configured \<open>onRetry\<close> callback is to be called before each retry sleep.
  The code never calls it. Here the wrapped function rejects with a \<open>SyntaxError\<close> once,
  the wrapper sleeps and retries, and the counter of the callback's calls (the second
  component of the state) is still \<open>0\<close> at the end.
\<close>

theorem withRetry_onRetry_not_called:
  "withRetry flaky_fn research_retry_config (0, 0) =
     (Inr ''content'', (2, 0), [Call, Sleep 1000, Call])"
  by (simp add: example_retry)

section \<open>Properties of the request adapter\<close>

lemma getValidUser_rejects_Unauthorized:
  "getValidUser pf event = Inl e \<Longrightarrow> e = Error ''Unauthorized''"
  by (auto simp: getValidUser_def split: option.splits)

text \<open>The classifier knows two status codes only; \<open>401\<close> is not one of them.\<close>

lemma handleError_status:
  "statusCode (handleError e) = BAD_REQUEST \<or> statusCode (handleError e) = INTERNAL_SERVER_ERROR"
  by (cases e) (simp_all add: createHttpResponse_def)

lemma handleError_never_unauthorized: "statusCode (handleError e) \<noteq> UNAUTHORIZED"
  by (cases e)
    (simp_all add: createHttpResponse_def BAD_REQUEST_def UNAUTHORIZED_def
      INTERNAL_SERVER_ERROR_def)

text \<open>When authentication or the body validation throws, the response is the classified
  error and the use case is not called.\<close>

lemma adapter_auth_failure:
  "authentication (getUserInfo_or_default pf params) (options_or_default params) event = Inl e \<Longrightarrow>
   createLambdaAdapter pf params event = (handleError e, [])"
  by (simp add: createLambdaAdapter_def)

lemma adapter_body_failure:
  "authentication (getUserInfo_or_default pf params) (options_or_default params) event = Inr u \<Longrightarrow>
   body_validation pf (options_or_default params) event = Inl e \<Longrightarrow>
   createLambdaAdapter pf params event = (handleError e, [])"
  by (simp add: createLambdaAdapter_def)

text \<open>With the default identity resolver, an event from which no user can be read is
  answered with \<open>500\<close>, and the use case is not called.\<close>

lemma unauthenticated_default_resolver:
  assumes "requireAuth (options_or_default params) \<noteq> Some False"
    and "getUserInfo params = None"
    and "getValidUserFromAuthHeader pf event = None"
  shows "createLambdaAdapter pf params event =
           (createHttpResponse INTERNAL_SERVER_ERROR ''Internal Server Error'', [])"
proof -
  from assms have "authentication (getUserInfo_or_default pf params)
      (options_or_default params) event = Inl (Error ''Unauthorized'')"
    by (simp add: authentication_def getUserInfo_or_default_def getValidUser_def)
  from adapter_auth_failure[OF this] show ?thesis by simp
qed

text \<open>The classifier answers every \<open>AppError\<close> alike: the status code and the message
  given to \<open>createError\<close> do not reach the response.\<close>

lemma handleError_createError:
  "handleError (createError code m) = createHttpResponse BAD_REQUEST ''AppError''"
  by (simp add: createError_def)

lemmas example_requests =
  example_platform_def research_params_def event_without_credential_def event_without_body_def
  event_empty_object_def event_null_and_empty_def event_authenticated_without_body_def
  options_auth_and_prompt_def
  options_fields_without_body_def options_two_fields_def text_null_and_empty_def quoted_def

lemmas adapter_unfold =
  createLambdaAdapter_def options_or_default_def getUserInfo_or_default_def defaultOptions_def
  authentication_def body_validation_def getValidUser_def getValidUserFromAuthHeader_def
  bearer_token_def DecodedJwtSchema_parse_def own_property_def createError_def
  createHttpResponse_def stringify_message_def BAD_REQUEST_def INTERNAL_SERVER_ERROR_def

text \<open>
  Claim C3: with \<open>requireAuth = true\<close> and no valid credential the response is to be of
  the authentication-error class (\<open>401\<close>) and the use case is not to be called. The use
  case is indeed not called, but the response is not \<open>401\<close>. Here the event has no
  \<open>authorization\<close> header: \<open>getValidUser\<close> throws \<open>Error('Unauthorized')\<close>, which
  \<open>handleError\<close> classifies as \<open>500\<close>, "Internal Server Error".
\<close>

theorem unauthenticated_request_gets_500:
  "createLambdaAdapter example_platform (research_params (Some options_auth_and_prompt))
     event_without_credential =
   (\<lparr>statusCode = 500, response_headers = [(''Content-Type'', ''application/json'')],
     response_body = stringify_message ''Internal Server Error'', isBase64Encoded = False\<rparr>, [])"
  by (simp add: example_requests adapter_unfold)

text \<open>When \<open>requireBody\<close> is not \<open>false\<close>, the authentication step has passed and
  the event has no body (none, or the empty string), the response is \<open>400\<close> with the
  message "AppError", and the use case is not called.\<close>

lemma missing_body_response:
  assumes "requireBody (options_or_default params) \<noteq> Some False"
    and "authentication (getUserInfo_or_default pf params) (options_or_default params) event =
           Inr validUser"
    and "body event = None \<or> body event = Some []"
  shows "createLambdaAdapter pf params event = (createHttpResponse BAD_REQUEST ''AppError'', [])"
proof -
  from assms(1,3) have "body_validation pf (options_or_default params) event =
      Inl (createError BAD_REQUEST ''Missing request body'')"
    by (auto simp: body_validation_def)
  from adapter_body_failure[OF assms(2) this] show ?thesis
    by (simp add: createError_def)
qed

text \<open>Authentication comes first: with the default options an event with neither
  credential nor body is answered by the authentication failure.\<close>

lemma missing_body_without_credential:
  "statusCode (fst (createLambdaAdapter example_platform (research_params None)
     event_without_body)) = 500"
  by (simp add: example_requests adapter_unfold)

text \<open>
  Claim C6: with \<open>requireBody = true\<close> and no body the response is to have the status
  \<open>400\<close> and a message that mentions the missing body, and the use case is not to be
  called. Status and use case are as claimed, the message is not. Here the caller is
  authenticated and sends no body: \<open>createError\<close> is given "Missing request body", but
  \<open>handleError\<close> answers every \<open>AppError\<close> with the message "AppError", and the body
  of the response mentions no body.
\<close>

theorem missing_body_message_is_AppError:
  "createLambdaAdapter example_platform (research_params (Some options_auth_and_prompt))
     event_authenticated_without_body =
   (\<lparr>statusCode = 400, response_headers = [(''Content-Type'', ''application/json'')],
     response_body = stringify_message ''AppError'', isBase64Encoded = False\<rparr>, []) \<and>
   \<not> js_includes (stringify_message ''AppError'') ''body'' \<and>
   \<not> js_includes (stringify_message ''AppError'') ''Body''"
  by (simp add: example_requests adapter_unfold)

lemma check_required_fields_missing:
  "(\<exists>f. check_required_fields pf pb fs =
          Inl (createError BAD_REQUEST (''Missing required field: '' @ f)))
   \<longleftrightarrow> (\<exists>f\<in>set fs. js_get pf pb f = Inr Undefined)"
proof (cases pb)
  case JNull
  then show ?thesis by (cases fs) (auto simp: createError_def)
next
  case (JBool x)
  then show ?thesis
    by (induction fs) (auto simp: createError_def split: sum.splits js_value.splits)
next
  case (JNum x)
  then show ?thesis
    by (induction fs) (auto simp: createError_def split: sum.splits js_value.splits)
next
  case (JStr x)
  then show ?thesis
    by (induction fs) (auto simp: createError_def split: sum.splits js_value.splits)
next
  case (JArr x)
  then show ?thesis
    by (induction fs) (auto simp: createError_def split: sum.splits js_value.splits)
next
  case (JObj x)
  then show ?thesis
    by (induction fs)
      (auto simp: createError_def split: sum.splits js_value.splits option.splits)
qed

lemma check_required_fields_bound:
  "\<forall>f\<in>set fs. \<exists>v. own_property kvs f = Some v \<Longrightarrow>
   check_required_fields pf (JObj kvs) fs = Inr ()"
  by (induction fs) auto

text \<open>With \<open>requireBody = false\<close> the body validation, and with it the check of the
  required fields, is skipped, whatever the body and the listed fields.\<close>

lemma body_validation_skipped:
  "requireBody opts = Some False \<Longrightarrow> body_validation pf opts event = Inr ()"
  by (simp add: body_validation_def)

text \<open>
  Claim C9, amended. Let \<open>requireBody\<close> not be \<open>false\<close>, let \<open>requiredFields\<close> be a
  non-empty list and let the event have a non-empty body that \<open>JSON.parse\<close> accepts. Then
  the body validation throws "Missing required field" if and only if reading some listed
  field from the parsed body gives \<open>undefined\<close>. When the parsed body is an object in
  which every listed field is bound to a value, whatever the value (\<open>null\<close> and the empty
  string included), the validation passes.
\<close>

theorem required_fields_check:
  assumes "requireBody opts \<noteq> Some False"
    and "body event = Some b" and "b \<noteq> []"
    and "JSON_parse pf b = Inr parsedBody"
    and "requiredFields opts = Some required" and "required \<noteq> []"
  shows "((\<exists>f. body_validation pf opts event =
               Inl (createError BAD_REQUEST (''Missing required field: '' @ f)))
          \<longleftrightarrow> (\<exists>f\<in>set required. js_get pf parsedBody f = Inr Undefined)) \<and>
         (\<forall>kvs. parsedBody = JObj kvs \<and> (\<forall>f\<in>set required. \<exists>v. own_property kvs f = Some v)
            \<longrightarrow> body_validation pf opts event = Inr ())"
proof -
  from assms
  have eq: "body_validation pf opts event = check_required_fields pf parsedBody required"
    by (simp add: body_validation_def)
  have missing: "(\<exists>f. body_validation pf opts event =
               Inl (createError BAD_REQUEST (''Missing required field: '' @ f)))
          \<longleftrightarrow> (\<exists>f\<in>set required. js_get pf parsedBody f = Inr Undefined)"
    unfolding eq by (rule check_required_fields_missing)
  have bound: "\<forall>kvs. parsedBody = JObj kvs \<and>
            (\<forall>f\<in>set required. \<exists>v. own_property kvs f = Some v)
            \<longrightarrow> body_validation pf opts event = Inr ()"
    unfolding eq using check_required_fields_bound by blast
  from missing bound show ?thesis by (rule conjI)
qed

theorem required_fields_check_witness:
  "requireBody options_two_fields \<noteq> Some False \<and>
   body event_null_and_empty = Some text_null_and_empty \<and>
   text_null_and_empty \<noteq> [] \<and>
   JSON_parse example_platform text_null_and_empty =
     Inr (JObj [(''prompt'', JNull), (''title'', JStr [])]) \<and>
   requiredFields options_two_fields = Some [''prompt'', ''title''] \<and>
   own_property [(''prompt'', JNull), (''title'', JStr [])] ''prompt'' = Some JNull \<and>
   own_property [(''prompt'', JNull), (''title'', JStr [])] ''title'' = Some (JStr []) \<and>
   body_validation example_platform options_two_fields event_null_and_empty = Inr ()"
proof -
  let ?kvs = "[(''prompt'', JNull), (''title'', JStr [])]"
  have a: "requireBody options_two_fields \<noteq> Some False"
    by (simp add: example_requests)
  have b: "body event_null_and_empty = Some text_null_and_empty"
    by (simp add: example_requests)
  have c: "text_null_and_empty \<noteq> []"
    by (simp add: text_null_and_empty_def)
  have d: "JSON_parse example_platform text_null_and_empty = Inr (JObj ?kvs)"
    by (simp add: example_platform_def text_null_and_empty_def quoted_def)
  have e: "requiredFields options_two_fields = Some [''prompt'', ''title'']"
    by (simp add: example_requests)
  have f: "[''prompt'', ''title''] \<noteq> []" by simp
  have g: "own_property ?kvs ''prompt'' = Some JNull" "own_property ?kvs ''title'' = Some (JStr [])"
    by (simp_all add: own_property_def)
  then have h: "\<forall>f\<in>set [''prompt'', ''title'']. \<exists>v. own_property ?kvs f = Some v"
    by simp
  from required_fields_check[OF a b c d e f] h
  have "body_validation example_platform options_two_fields event_null_and_empty = Inr ()"
    by blast
  with a b c d e g show ?thesis by simp
qed

text \<open>
  Claim C9 as stated fails: the check is part of the body validation and is skipped with
  it. With \<open>requireBody = false\<close> and \<open>requiredFields = ['prompt']\<close>, the body \<open>{}\<close>
  has no \<open>prompt\<close>, yet the validation passes, the use case is called and the response is
  the formatted result.
\<close>

theorem required_fields_skipped_without_requireBody:
  "requiredFields options_fields_without_body = Some [''prompt''] \<and>
   JSON_parse example_platform ''{}'' = Inr (JObj []) \<and>
   js_get example_platform (JObj []) ''prompt'' = Inr Undefined \<and>
   body_validation example_platform options_fields_without_body event_empty_object = Inr () \<and>
   createLambdaAdapter example_platform (research_params (Some options_fields_without_body))
     event_empty_object =
   (createHttpResponse 202 ''pending'', [(''u1'', ''{}'')])"
  by (simp add: example_requests adapter_unfold)

section \<open>Properties of the queue adapter\<close>

lemma deleted_process_try:
  "deleted (snd (process_try send params r)) =
     (case pipeline_result params r of
        Inl e \<Rightarrow> []
      | Inr out \<Rightarrow>
          (if eventSourceARN r = [] then []
           else (case getQueueUrlFromArn (eventSourceARN r) of
                   Inl e \<Rightarrow> []
                 | Inr url \<Rightarrow>
                     (case send url (receiptHandle r) of
                        Inl e \<Rightarrow> []
                      | Inr u \<Rightarrow> [(url, receiptHandle r)]))))"
  by (simp add: process_try_def pipeline_result_def split: sum.splits)

lemma snd_processRecord: "snd (processRecord send params r) = record_events send params r"
  by (simp add: processRecord_def record_events_def split: prod.splits sum.splits)

text \<open>\<open>processRecord\<close> by cases: errors collected, success, and rejection.\<close>

lemma processRecord_continue:
  "merged_continueOnError params \<Longrightarrow>
   processRecord send params r = (Inr (record_entry send params r), record_events send params r)"
  by (simp add: processRecord_def record_entry_def record_events_def
      split: prod.splits sum.splits)

lemma processRecord_ok:
  "fst (process_try send params r) = Inr v \<Longrightarrow>
   processRecord send params r = (Inr (Processed v), record_events send params r)"
  by (auto simp: processRecord_def record_events_def split: prod.splits sum.splits)

lemma processRecord_abort:
  "fst (process_try send params r) = Inl e \<Longrightarrow> \<not> merged_continueOnError params \<Longrightarrow>
   processRecord send params r = (Inl e, record_events send params r)"
  by (auto simp: processRecord_def record_events_def split: prod.splits sum.splits)

lemma sequential_continue:
  "merged_continueOnError params \<Longrightarrow>
   process_sequentially send params rs =
     (Inr (map (record_entry send params) rs), concat (map (record_events send params) rs))"
  by (induction rs) (simp_all add: processRecord_continue)

lemma parallel_continue:
  assumes "merged_continueOnError params"
  shows "process_in_parallel send fr params rs =
     (Inr (map (record_entry send params) rs), concat (map (record_events send params) rs))"
proof -
  have "rejections (map (processRecord send params) rs) = [] \<and>
        fulfilments (map (processRecord send params) rs) = map (record_entry send params) rs"
    by (induction rs) (simp_all add: processRecord_continue[OF assms])
  then show ?thesis
    by (simp add: process_in_parallel_def Let_def comp_def snd_processRecord)
qed

lemma sequential_abort:
  "\<forall>p\<in>set pre. \<exists>v. fst (process_try send params p) = Inr v \<Longrightarrow>
   fst (process_try send params r) = Inl e \<Longrightarrow> \<not> merged_continueOnError params \<Longrightarrow>
   process_sequentially send params (pre @ r # post) =
     (Inl e, concat (map (record_events send params) pre) @ record_events send params r)"
proof (induction pre)
  case Nil
  then show ?case by (simp add: processRecord_abort)
next
  case (Cons p pre)
  then obtain v where "fst (process_try send params p) = Inr v" by auto
  from processRecord_ok[OF this] Cons show ?case by simp
qed

text \<open>The sequential loop processes a prefix of the batch.\<close>

lemma sequential_prefix:
  "\<exists>n\<le>length rs. snd (process_sequentially send params rs) =
      concat (map (record_events send params) (take n rs))"
proof (induction rs)
  case Nil
  then show ?case by simp
next
  case (Cons r rs)
  then obtain n where n: "n \<le> length rs"
    "snd (process_sequentially send params rs) =
       concat (map (record_events send params) (take n rs))"
    by blast
  obtain x tr where p: "processRecord send params r = (x, tr)"
    by (cases "processRecord send params r")
  then have tr: "tr = record_events send params r"
    using snd_processRecord[of send params r] by simp
  show ?case
  proof (cases x)
    case (Inl e)
    with p tr show ?thesis by (intro exI[of _ 1]) simp
  next
    case (Inr y)
    with p tr n show ?thesis
      by (intro exI[of _ "Suc n"]) (auto split: prod.splits sum.splits)
  qed
qed

lemma batch_events_prefix:
  assumes "Records event = Some rs"
  shows "\<exists>n\<le>length rs.
      snd (createSqsAdapter send fr params event) =
        concat (map (record_events send params) (take n rs)) \<and>
      (merged_continueOnError params \<or> merged_processInParallel params \<longrightarrow> n = length rs)"
proof (cases "rs = []")
  case True
  with assms show ?thesis by (simp add: createSqsAdapter_def)
next
  case False
  show ?thesis
  proof (cases "merged_processInParallel params")
    case True
    with assms False have "snd (createSqsAdapter send fr params event) =
        concat (map (record_events send params) (take (length rs) rs))"
      by (simp add: createSqsAdapter_def process_in_parallel_def Let_def comp_def
          snd_processRecord split: prod.splits sum.splits)
    then show ?thesis by blast
  next
    case seq: False
    show ?thesis
    proof (cases "merged_continueOnError params")
      case True
      with assms False seq have "snd (createSqsAdapter send fr params event) =
          concat (map (record_events send params) (take (length rs) rs))"
        by (simp add: createSqsAdapter_def sequential_continue)
      then show ?thesis by blast
    next
      case stop: False
      from sequential_prefix[of rs send params] obtain n where
        "n \<le> length rs" "snd (process_sequentially send params rs) =
          concat (map (record_events send params) (take n rs))" by blast
      with assms False seq stop show ?thesis
        by (intro exI[of _ n]) (auto simp: createSqsAdapter_def split: prod.splits sum.splits)
    qed
  qed
qed

lemmas example_batches =
  queue_params_def send_ok_def queue_record_def queue_arn_def queue_url_def
  options_sequential_def options_parallel_abort_def options_continue_undefined_def
  options_parallel_undefined_def batch_of_three_def

lemmas queue_unfold =
  createSqsAdapter_def process_in_parallel_def processRecord_def process_try_def
  merged_processInParallel_def merged_continueOnError_def getQueueUrlFromArn_def
  createHttpResponse_def BAD_REQUEST_def INTERNAL_SERVER_ERROR_def

text \<open>An option given as \<open>undefined\<close> is not the default: with
  \<open>continueOnError: undefined\<close> the sequential loop stops at the record that fails, and
  with \<open>processInParallel: undefined\<close> the records are processed one after the other.\<close>

lemma undefined_option_replaces_default:
  "\<not> merged_continueOnError (queue_params (Some options_continue_undefined))"
  "\<not> merged_processInParallel (queue_params (Some options_parallel_undefined))"
  "merged_continueOnError (queue_params None)"
  "merged_processInParallel (queue_params None)"
  by (simp_all add: merged_continueOnError_def merged_processInParallel_def example_batches)

lemma undefined_continueOnError_aborts:
  "createSqsAdapter send_ok hd (queue_params (Some options_continue_undefined))
     \<lparr>Records = Some batch_of_three\<rparr> =
   (Fatal (createHttpResponse 400 ''Zod validation error''),
    [ProcessRecord ''m1'', UseCase ''m1'' Resolved, DeleteMessage queue_url ''rh-m1'' Resolved,
     ProcessRecord ''m2''])"
  "createSqsAdapter send_ok hd (queue_params (Some options_parallel_undefined))
     \<lparr>Records = Some batch_of_three\<rparr> =
   (Fatal (createHttpResponse 400 ''Zod validation error''),
    [ProcessRecord ''m1'', UseCase ''m1'' Resolved, DeleteMessage queue_url ''rh-m1'' Resolved,
     ProcessRecord ''m2''])"
  by (simp_all add: example_batches queue_unfold)

text \<open>
  Claim C1, amended. For every batch, what the adapter does is what \<open>processRecord\<close> does
  for the first \<open>n\<close> records of the batch, one record after the other; \<open>n\<close> is the whole
  batch when errors are collected or the records are processed in parallel. And
  \<open>processRecord\<close> deletes the record from its queue if and only if extraction,
  validation and the use case succeeded for it, its \<open>eventSourceARN\<close> is not empty and
  has the six parts of a queue ARN, and the delete call itself resolved; the message
  deleted is the record's own (its queue's URL, its receipt handle). So a record that
  fails extraction or validation is never deleted, and no call of \<open>processRecord\<close>
  deletes more than once.
\<close>

theorem queue_record_deleted_iff:
  assumes "Records event = Some rs"
  shows "(\<exists>n\<le>length rs.
            snd (createSqsAdapter send fr params event) =
              concat (map (\<lambda>r. snd (processRecord send params r)) (take n rs)) \<and>
            (merged_continueOnError params \<or> merged_processInParallel params
               \<longrightarrow> n = length rs)) \<and>
         (\<forall>r url h.
            ((url, h) \<in> set (deleted (snd (processRecord send params r))) \<longleftrightarrow>
               (\<exists>out. pipeline_result params r = Inr out) \<and> eventSourceARN r \<noteq> [] \<and>
               getQueueUrlFromArn (eventSourceARN r) = Inr url \<and> h = receiptHandle r \<and>
               send url h = Inr ()) \<and>
            length (deleted (snd (processRecord send params r))) \<le> 1)"
proof -
  have "\<forall>r url h.
      ((url, h) \<in> set (deleted (snd (processRecord send params r))) \<longleftrightarrow>
         (\<exists>out. pipeline_result params r = Inr out) \<and> eventSourceARN r \<noteq> [] \<and>
         getQueueUrlFromArn (eventSourceARN r) = Inr url \<and> h = receiptHandle r \<and>
         send url h = Inr ()) \<and>
      length (deleted (snd (processRecord send params r))) \<le> 1"
    by (auto simp: snd_processRecord record_events_def deleted_process_try split: sum.splits)
  with batch_events_prefix[OF assms, of send fr params] show ?thesis
    by (simp add: snd_processRecord)
qed

theorem queue_record_deleted_iff_witness:
  "Records \<lparr>Records = Some batch_of_three\<rparr> = Some batch_of_three \<and>
   (queue_url, ''rh-m1'') \<in> set (deleted (snd (processRecord send_ok
      (queue_params (Some (options_sequential True))) (queue_record ''m1'' ''alpha'' queue_arn)))) \<and>
   (queue_url, ''rh-m2'') \<notin> set (deleted (snd (processRecord send_ok
      (queue_params (Some (options_sequential True))) (queue_record ''m2'' ''bad'' queue_arn))))"
proof -
  let ?P = "queue_params (Some (options_sequential True))"
  have h: "Records \<lparr>Records = Some batch_of_three\<rparr> = Some batch_of_three" by simp
  note T = queue_record_deleted_iff[OF h, of send_ok hd ?P, THEN conjunct2]
  have url: "getQueueUrlFromArn queue_arn = Inr queue_url"
    by (simp add: queue_arn_def queue_url_def getQueueUrlFromArn_def)
  have ok: "pipeline_result ?P (queue_record ''m1'' ''alpha'' queue_arn) = Inr 5"
    by (simp add: pipeline_result_def example_batches)
  have bad: "pipeline_result ?P (queue_record ''m2'' ''bad'' queue_arn) = Inl (ZodError ''Required'')"
    by (simp add: pipeline_result_def example_batches)
  have arn: "queue_arn \<noteq> []" by (simp add: queue_arn_def)
  from T ok url arn
  have 1: "(queue_url, ''rh-m1'') \<in> set (deleted (snd (processRecord send_ok ?P
      (queue_record ''m1'' ''alpha'' queue_arn))))"
    by (simp add: queue_record_def send_ok_def)
  from T bad
  have 2: "(queue_url, ''rh-m2'') \<notin> set (deleted (snd (processRecord send_ok ?P
      (queue_record ''m2'' ''bad'' queue_arn))))"
    by simp
  from h 1 2 show ?thesis by simp
qed

text \<open>
  Claim C1 as stated fails: the use case resolves for a record whose \<open>eventSourceARN\<close> is
  empty, and the record is not deleted; the error "Missing eventSourceARN in SQS record"
  becomes its entry in the batch result.
\<close>

theorem record_without_arn_is_not_deleted:
  "createSqsAdapter send_ok hd (queue_params None)
     \<lparr>Records = Some [queue_record ''m1'' ''alpha'' []]\<rparr> =
   (Results [RecordError ''Missing eventSourceARN in SQS record''],
    [ProcessRecord ''m1'', UseCase ''m1'' Resolved])"
  by (simp add: example_batches queue_unfold)

text \<open>
  Claim C4, amended. With \<open>continueOnError = true\<close> (in either mode) every record of a
  non-empty batch is processed, whatever happens to the others: the batch result has one
  entry for each record, in the order of the batch, the use case's result for a record
  that succeeded (and was deleted) and \<open>{ error: message }\<close> for one that failed; the
  entry of a failed record carries no record id. With \<open>continueOnError = false\<close> and
  \<open>processInParallel = false\<close>, when the records before \<open>r\<close> succeed and \<open>r\<close> fails
  with \<open>e\<close>, the records after \<open>r\<close> are not processed at all, and the handler returns
  the classified error \<open>handleError e\<close>.
\<close>

theorem queue_batch_error_handling:
  "(Records event = Some rs \<and> rs \<noteq> [] \<and> merged_continueOnError params \<longrightarrow>
      createSqsAdapter send fr params event =
        (Results (map (record_entry send params) rs),
         concat (map (record_events send params) rs))) \<and>
   (Records event = Some (pre @ r # post) \<and> \<not> merged_continueOnError params \<and>
    \<not> merged_processInParallel params \<and>
    (\<forall>p\<in>set pre. \<exists>v. fst (process_try send params p) = Inr v) \<and>
    fst (process_try send params r) = Inl e \<longrightarrow>
      createSqsAdapter send fr params event =
        (Fatal (handleError e),
         concat (map (record_events send params) pre) @ record_events send params r))"
proof (intro conjI impI)
  assume a: "Records event = Some rs \<and> rs \<noteq> [] \<and> merged_continueOnError params"
  then show "createSqsAdapter send fr params event =
      (Results (map (record_entry send params) rs), concat (map (record_events send params) rs))"
    by (cases "merged_processInParallel params")
      (simp_all add: createSqsAdapter_def parallel_continue sequential_continue)
next
  assume b: "Records event = Some (pre @ r # post) \<and> \<not> merged_continueOnError params \<and>
    \<not> merged_processInParallel params \<and>
    (\<forall>p\<in>set pre. \<exists>v. fst (process_try send params p) = Inr v) \<and>
    fst (process_try send params r) = Inl e"
  then have "process_sequentially send params (pre @ r # post) =
      (Inl e, concat (map (record_events send params) pre) @ record_events send params r)"
    by (intro sequential_abort) auto
  with b show "createSqsAdapter send fr params event =
      (Fatal (handleError e),
       concat (map (record_events send params) pre) @ record_events send params r)"
    by (simp add: createSqsAdapter_def)
qed

theorem queue_batch_error_handling_witness:
  "merged_continueOnError (queue_params (Some (options_sequential True))) \<and>
   createSqsAdapter send_ok hd (queue_params (Some (options_sequential True)))
     \<lparr>Records = Some batch_of_three\<rparr> =
   (Results [Processed 5, RecordError ''Required'', Processed 5],
    [ProcessRecord ''m1'', UseCase ''m1'' Resolved, DeleteMessage queue_url ''rh-m1'' Resolved,
     ProcessRecord ''m2'',
     ProcessRecord ''m3'', UseCase ''m3'' Resolved, DeleteMessage queue_url ''rh-m3'' Resolved]) \<and>
   \<not> merged_continueOnError (queue_params (Some (options_sequential False))) \<and>
   \<not> merged_processInParallel (queue_params (Some (options_sequential False))) \<and>
   fst (process_try send_ok (queue_params (Some (options_sequential False)))
          (queue_record ''m1'' ''alpha'' queue_arn)) = Inr 5 \<and>
   fst (process_try send_ok (queue_params (Some (options_sequential False)))
          (queue_record ''m2'' ''bad'' queue_arn)) = Inl (ZodError ''Required'') \<and>
   createSqsAdapter send_ok hd (queue_params (Some (options_sequential False)))
     \<lparr>Records = Some batch_of_three\<rparr> =
   (Fatal (createHttpResponse 400 ''Zod validation error''),
    [ProcessRecord ''m1'', UseCase ''m1'' Resolved, DeleteMessage queue_url ''rh-m1'' Resolved,
     ProcessRecord ''m2''])"
proof -
  let ?C = "queue_params (Some (options_sequential True))"
  let ?A = "queue_params (Some (options_sequential False))"
  let ?m1 = "queue_record ''m1'' ''alpha'' queue_arn"
  let ?m2 = "queue_record ''m2'' ''bad'' queue_arn"
  let ?m3 = "queue_record ''m3'' ''gamma'' queue_arn"
  let ?ev = "\<lparr>Records = Some batch_of_three\<rparr>"
  have url: "getQueueUrlFromArn queue_arn = Inr queue_url"
    by (simp add: queue_arn_def queue_url_def getQueueUrlFromArn_def)
  have arn: "queue_arn \<noteq> []" by (simp add: queue_arn_def)
  have c: "merged_continueOnError ?C"
    by (simp add: merged_continueOnError_def example_batches)
  have a: "\<not> merged_continueOnError ?A" "\<not> merged_processInParallel ?A"
    by (simp_all add: merged_continueOnError_def merged_processInParallel_def example_batches)
  have tC: "process_try send_ok ?C ?m1 =
        (Inr 5, [UseCase ''m1'' Resolved, DeleteMessage queue_url ''rh-m1'' Resolved])"
      "process_try send_ok ?C ?m2 = (Inl (ZodError ''Required''), [])"
      "process_try send_ok ?C ?m3 =
        (Inr 5, [UseCase ''m3'' Resolved, DeleteMessage queue_url ''rh-m3'' Resolved])"
    using url arn by (simp_all add: process_try_def queue_params_def queue_record_def send_ok_def)
  have tA: "process_try send_ok ?A ?m1 =
        (Inr 5, [UseCase ''m1'' Resolved, DeleteMessage queue_url ''rh-m1'' Resolved])"
      "process_try send_ok ?A ?m2 = (Inl (ZodError ''Required''), [])"
    using url arn by (simp_all add: process_try_def queue_params_def queue_record_def send_ok_def)
  have b3: "batch_of_three = [?m1, ?m2, ?m3]" "batch_of_three = [?m1] @ ?m2 # [?m3]"
    by (simp_all add: batch_of_three_def)
  have first: "createSqsAdapter send_ok hd ?C ?ev =
      (Results (map (record_entry send_ok ?C) batch_of_three),
       concat (map (record_events send_ok ?C) batch_of_three))"
    using queue_batch_error_handling[of ?ev batch_of_three ?C send_ok hd, THEN conjunct1] c
    by (simp add: batch_of_three_def)
  have second: "createSqsAdapter send_ok hd ?A ?ev =
      (Fatal (handleError (ZodError ''Required'')),
       concat (map (record_events send_ok ?A) [?m1]) @ record_events send_ok ?A ?m2)"
    using queue_batch_error_handling[of ?ev _ ?A send_ok hd "[?m1]" ?m2 "[?m3]"
        "ZodError ''Required''", THEN conjunct2] a tA b3(2)
    by simp
  from first second c a tC tA show ?thesis
    by (simp add: b3(1) record_entry_def record_events_def queue_record_def
        createHttpResponse_def BAD_REQUEST_def)
qed

text \<open>
  Claim C4 as stated fails in the parallel mode: with \<open>continueOnError = false\<close> and
  \<open>processInParallel = true\<close> the second record fails validation, and the third record
  is processed and deleted all the same.
\<close>

theorem parallel_batch_is_not_aborted:
  "createSqsAdapter send_ok hd (queue_params (Some options_parallel_abort))
     \<lparr>Records = Some batch_of_three\<rparr> =
   (Fatal (createHttpResponse 400 ''Zod validation error''),
    [ProcessRecord ''m1'', UseCase ''m1'' Resolved, DeleteMessage queue_url ''rh-m1'' Resolved,
     ProcessRecord ''m2'',
     ProcessRecord ''m3'', UseCase ''m3'' Resolved, DeleteMessage queue_url ''rh-m3'' Resolved])"
  by (simp add: example_batches queue_unfold)

end
